theory Spec2Isabelle
  imports Complex_Main
begin

section \<open>JavaScript values\<close>

text \<open>
  The handlers read untyped request data (query string, JSON body, headers) and the JSON
  payload of the geo provider, and they branch on JavaScript truthiness. Values are
  therefore modelled as a datatype: numbers as reals with a separate \<open>JNaN\<close>, \<open>Date\<close>
  objects by their milliseconds since the epoch (\<open>JInvalidDate\<close> is the Date whose time
  value is NaN), objects as association lists.
\<close>

datatype jsval =
    JUndefined
  | JNull
  | JBool bool
  | JNum real
  | JNaN
  | JStr string
  | JDate int
  | JInvalidDate
  | JArray "jsval list"
  | JObject "(string \<times> jsval) list"

text \<open>\<open>!!v\<close>: the falsy values are undefined, null, false, 0, NaN and the empty string.\<close>

fun truthy :: "jsval \<Rightarrow> bool" where
  "truthy JUndefined = False"
| "truthy JNull = False"
| "truthy (JBool b) = b"
| "truthy (JNum r) = (r \<noteq> 0)"
| "truthy JNaN = False"
| "truthy (JStr s) = (s \<noteq> [])"
| "truthy (JDate t) = True"
| "truthy JInvalidDate = True"
| "truthy (JArray xs) = True"
| "truthy (JObject kvs) = True"

text \<open>\<open>a || b\<close>\<close>

definition js_or :: "jsval \<Rightarrow> jsval \<Rightarrow> jsval" where
  "js_or a b = (if truthy a then a else b)"

text \<open>
  \<open>a === b\<close>. Objects, arrays and dates are equal only to themselves by reference; the
  two operands compared by the handlers never share a reference, so they are unequal.
\<close>

fun strict_eq :: "jsval \<Rightarrow> jsval \<Rightarrow> bool" where
  "strict_eq JUndefined JUndefined = True"
| "strict_eq JNull JNull = True"
| "strict_eq (JBool a) (JBool b) = (a = b)"
| "strict_eq (JNum a) (JNum b) = (a = b)"
| "strict_eq (JStr a) (JStr b) = (a = b)"
| "strict_eq a b = False"

text \<open>Reading a property of a value that is neither undefined nor null.\<close>

fun field :: "jsval \<Rightarrow> string \<Rightarrow> jsval" where
  "field (JObject kvs) k = (case map_of kvs k of Some v \<Rightarrow> v | None \<Rightarrow> JUndefined)"
| "field v k = JUndefined"

definition nullish :: "jsval \<Rightarrow> bool" where
  "nullish v = (v = JUndefined \<or> v = JNull)"

text \<open>\<open>v.k\<close>: a TypeError when \<open>v\<close> is undefined or null.\<close>

definition js_get :: "jsval \<Rightarrow> string \<Rightarrow> string + jsval" where
  "js_get v k = (if nullish v then Inl ''TypeError: Cannot read properties'' else Inr (field v k))"

text \<open>\<open>v?.k\<close>\<close>

definition js_opt_get :: "jsval \<Rightarrow> string \<Rightarrow> jsval" where
  "js_opt_get v k = (if nullish v then JUndefined else field v k)"

section \<open>The Link and Click tables\<close>

text \<open>
  A row of the Link table as Prisma returns it: \<open>password\<close>, \<open>expiresAt\<close>, \<open>title\<close> and
  \<open>webhookUrl\<close> are nullable columns, \<open>expiresAt\<close> and \<open>createdAt\<close> are instants in
  milliseconds since the epoch.
\<close>

record link =
  link_id :: nat
  slug :: string
  destination :: string
  title :: "string option"
  password :: "string option"
  expiresAt :: "int option"
  webhookUrl :: "string option"
  createdAt :: int
  apiKeyId :: nat
  meta :: jsval

record click =
  click_id :: nat
  linkId :: nat
  click_fields :: jsval

definition of_opt_str :: "string option \<Rightarrow> jsval" where
  "of_opt_str s = (case s of None \<Rightarrow> JNull | Some x \<Rightarrow> JStr x)"

definition of_opt_date :: "int option \<Rightarrow> jsval" where
  "of_opt_date d = (case d of None \<Rightarrow> JNull | Some t \<Rightarrow> JDate t)"

text \<open>
  What a handler does to its surroundings, in the order in which it does it: an insert
  attempted on the Click table (for which link, and whether it succeeded) and a POST
  issued to a URL.
\<close>

datatype effect =
    ClickCreate nat bool
  | AxiosPost jsval

text \<open>
  The observable state: both tables, the HTTP POSTs issued by the webhook notifier (URL and
  payload, in order), the lines written with \<open>console.error\<close>, and the trace of the
  inserts attempted and the POSTs issued.
\<close>

record world =
  links :: "link list"
  clicks :: "click list"
  posts :: "(jsval \<times> jsval) list"
  console :: "string list"
  effects :: "effect list"

text \<open>
  What the surroundings answer during one request: the clock, whether
  \<open>prisma.link.findUnique\<close> rejects (with which message), whether
  \<open>prisma.click.create\<close> rejects, whether \<open>axios.post\<close> rejects,
  whether the Link store rejects an insert for a reason of its own, and the library
  functions the handlers call: \<open>JSON.stringify\<close>, \<open>Date.prototype.toISOString\<close>, the
  parser behind \<open>new Date(v)\<close> (\<open>None\<close> for an invalid date), \<open>uuidv4()\<close> and
  \<open>bcrypt.hash(s, 10)\<close> (salted, so it is the value this call produces).
\<close>

record env =
  now :: int
  link_find_error :: "string option"
  click_create_error :: "string option"
  axios_post_error :: "string option"
  link_create_error :: "string option"
  JSON_stringify :: "jsval \<Rightarrow> string"
  toISOString :: "int \<Rightarrow> string"
  Date_parse :: "jsval \<Rightarrow> int option"
  uuidv4 :: string
  bcrypt_hash :: "string \<Rightarrow> string"

text \<open>
  The parts of an Express request the handlers read. \<open>bodyParser.json\<close> is mounted for
  every route, so \<open>req.body\<close> is an object, as \<open>req.query\<close> and \<open>req.headers\<close> are;
  \<open>req._logger\<close> is undefined when the request logger did not run.
\<close>

record request =
  params_slug :: string
  query :: "(string \<times> jsval) list"
  body :: "(string \<times> jsval) list"
  headers :: "(string \<times> jsval) list"
  logger :: jsval
  req_ip :: jsval
  apiKey_id :: nat
  protocol :: string
  host :: string

datatype response =
    Send nat string
  | Json nat jsval
  | Redirect nat string

fun status_of :: "response \<Rightarrow> nat" where
  "status_of (Send c b) = c"
| "status_of (Json c b) = c"
| "status_of (Redirect c u) = c"

text \<open>
  What a handler leaves behind: a response it wrote (\<open>Inr\<close>), or its promise rejected
  with an error and no response written (\<open>Inl\<close>); the second has no status.
\<close>

fun http_status :: "string + response \<Rightarrow> nat option" where
  "http_status (Inl err) = None"
| "http_status (Inr r) = Some (status_of r)"

section \<open>Webhook notifier (webhook.service.js)\<close>

text \<open>
  \<open>sendWebhook\<close> returns without a request when the URL is falsy; otherwise it issues one
  POST. A rejected POST is logged inside the function's own \<open>catch\<close>, so the promise it
  returns is never rejected (\<open>Inl\<close> is never produced).
\<close>

definition webhook_payload :: "env \<Rightarrow> jsval \<Rightarrow> link \<Rightarrow> jsval" where
  "webhook_payload e clickData linkData =
     JObject
       [(''event'', JStr ''link_click''),
        (''click'', clickData),
        (''link'', JObject
           [(''id'', JNum (of_nat (link_id linkData))),
            (''slug'', JStr (slug linkData)),
            (''destination'', JStr (destination linkData)),
            (''title'', of_opt_str (title linkData)),
            (''createdAt'', JDate (createdAt linkData)),
            (''expiresAt'', of_opt_date (expiresAt linkData))]),
        (''timestamp'', JStr (toISOString e (now e)))]"

definition sendWebhook :: "env \<Rightarrow> jsval \<Rightarrow> jsval \<Rightarrow> link \<Rightarrow> world \<Rightarrow> string + world" where
  "sendWebhook e url clickData linkData w =
     (if \<not> truthy url then Inr w
      else
        let w1 = w\<lparr>posts := posts w @ [(url, webhook_payload e clickData linkData)],
                   effects := effects w @ [AxiosPost url]\<rparr>
        in case axios_post_error e of
             None \<Rightarrow> Inr w1
           | Some msg \<Rightarrow> Inr (w1\<lparr>console := console w1 @ [''Webhook delivery failed: '' @ msg]\<rparr>))"

section \<open>Redirect handler (track.controller.js)\<close>

text \<open>The row with a given slug: the slug column is unique.\<close>

definition findUnique :: "link list \<Rightarrow> string \<Rightarrow> link option" where
  "findUnique ls s = find (\<lambda>l. slug l = s) ls"

text \<open>
  \<open>await prisma.link.findUnique({ where: { slug } })\<close>: rejects when the store cannot
  be read, and otherwise returns the row or null.
\<close>

definition prisma_link_findUnique :: "env \<Rightarrow> link list \<Rightarrow> string \<Rightarrow> string + link option" where
  "prisma_link_findUnique e ls s =
     (case link_find_error e of Some msg \<Rightarrow> Inl msg | None \<Rightarrow> Inr (findUnique ls s))"

text \<open>\<open>link.expiresAt && new Date() > new Date(link.expiresAt)\<close>\<close>

definition expired :: "env \<Rightarrow> link \<Rightarrow> bool" where
  "expired e l = (case expiresAt l of None \<Rightarrow> False | Some t \<Rightarrow> now e > t)"

text \<open>\<open>req.query.password || req.body.password\<close>\<close>

definition providedPassword :: "request \<Rightarrow> jsval" where
  "providedPassword req =
     js_or (field (JObject (query req)) ''password'') (field (JObject (body req)) ''password'')"

text \<open>
  The guard of the 401 branch:
  \<open>link.password && (!providedPassword || providedPassword !== link.password)\<close>.
\<close>

definition challenged :: "request \<Rightarrow> link \<Rightarrow> bool" where
  "challenged req l =
     (truthy (of_opt_str (password l)) \<and>
      (\<not> truthy (providedPassword req) \<or>
       \<not> strict_eq (providedPassword req) (of_opt_str (password l))))"

definition clickData_of :: "env \<Rightarrow> request \<Rightarrow> jsval" where
  "clickData_of e req =
     (let ip = js_or (js_opt_get (logger req) ''ip'') (req_ip req);
          geo = js_or (js_opt_get (logger req) ''geo'') (JObject []);
          ua = field (JObject (headers req)) ''user-agent'';
          ref = js_or (js_or (field (JObject (headers req)) ''referer'')
                             (field (JObject (headers req)) ''referrer'')) JNull
      in JObject
           [(''ip'', ip),
            (''country'', js_or (js_opt_get geo ''country'') JNull),
            (''region'', js_or (js_opt_get geo ''region'') JNull),
            (''city'', js_or (js_opt_get geo ''city'') JNull),
            (''ua'', ua),
            (''referrer'', ref),
            (''headers'', JStr (JSON_stringify e (JObject
               [(''accept-language'', field (JObject (headers req)) ''accept-language''),
                (''x-forwarded-for'', field (JObject (headers req)) ''x-forwarded-for'')]))),
            (''occurredAt'', JDate (now e))])"

text \<open>
  The \<open>try { await prisma.click.create(...) } catch (e) { console.error(...) }\<close> block:
  a rejected insert leaves the table as it was and writes one log line. Either way the
  attempt is recorded in the trace.
\<close>

definition next_click_id :: "click list \<Rightarrow> nat" where
  "next_click_id cs = Suc (fold max (map click_id cs) 0)"

definition record_click :: "env \<Rightarrow> link \<Rightarrow> jsval \<Rightarrow> world \<Rightarrow> world" where
  "record_click e l clickData w =
     (case click_create_error e of
        None \<Rightarrow>
          w\<lparr>clicks := clicks w @
              [\<lparr>click_id = next_click_id (clicks w), linkId = link_id l,
                click_fields = clickData\<rparr>],
            effects := effects w @ [ClickCreate (link_id l) True]\<rparr>
      | Some msg \<Rightarrow>
          w\<lparr>console := console w @ [''Failed to record click '' @ msg],
            effects := effects w @ [ClickCreate (link_id l) False]\<rparr>)"

text \<open>
  \<open>if (link.webhookUrl) sendWebhook(...).catch(err => console.error("Webhook error:", ...))\<close>
\<close>

definition notify :: "env \<Rightarrow> link \<Rightarrow> jsval \<Rightarrow> world \<Rightarrow> world" where
  "notify e l clickData w =
     (if truthy (of_opt_str (webhookUrl l)) then
        (case sendWebhook e (of_opt_str (webhookUrl l)) clickData l w of
           Inr w' \<Rightarrow> w'
         | Inl err \<Rightarrow> w\<lparr>console := console w @ [''Webhook error: '' @ err]\<rparr>)
      else w)"

text \<open>
  \<open>redirectHandler\<close>. The lookup is awaited outside any \<open>try\<close>: when it rejects, the
  handler's promise rejects with the same error and no response is written (\<open>Inl\<close>).
\<close>

definition redirectHandler :: "env \<Rightarrow> request \<Rightarrow> world \<Rightarrow> (string + response) \<times> world" where
  "redirectHandler e req w =
     (case prisma_link_findUnique e (links w) (params_slug req) of
        Inl err \<Rightarrow> (Inl err, w)
      | Inr None \<Rightarrow> (Inr (Send 404 ''Not found''), w)
      | Inr (Some l) \<Rightarrow>
          if expired e l then (Inr (Send 410 ''Gone''), w)
          else if challenged req l then
            (Inr (Json 401 (JObject [(''error'', JStr ''Password required''),
                                     (''challenge'', JBool True)])), w)
          else
            let clickData = clickData_of e req;
                w1 = record_click e l clickData w;
                w2 = notify e l clickData w1
            in (Inr (Redirect 302 (destination l)), w2))"

section \<open>Link creation (links.controller.js)\<close>

definition new_Date :: "env \<Rightarrow> jsval \<Rightarrow> jsval" where
  "new_Date e v = (case Date_parse e v of None \<Rightarrow> JInvalidDate | Some t \<Rightarrow> JDate t)"

text \<open>
  \<open>await bcrypt.hash(password, 10)\<close>: bcrypt accepts a string and throws on any other
  value a JSON body can hold.
\<close>

definition bcrypt_hash_js :: "env \<Rightarrow> jsval \<Rightarrow> string + string" where
  "bcrypt_hash_js e v =
     (case v of
        JStr s \<Rightarrow> Inr (bcrypt_hash e s)
      | _ \<Rightarrow> Inl ''data must be a string or Buffer and salt must either be a salt string or a number of rounds'')"

text \<open>
  What Prisma accepts for a \<open>String\<close> column, a \<open>String?\<close> column (undefined is left out
  and stored as NULL) and a \<open>DateTime?\<close> column; \<open>None\<close> is a validation error.
\<close>

fun as_text :: "jsval \<Rightarrow> string option" where
  "as_text (JStr s) = Some s"
| "as_text v = None"

fun as_opt_text :: "jsval \<Rightarrow> string option option" where
  "as_opt_text (JStr s) = Some (Some s)"
| "as_opt_text JNull = Some None"
| "as_opt_text JUndefined = Some None"
| "as_opt_text v = None"

fun as_opt_date :: "jsval \<Rightarrow> int option option" where
  "as_opt_date (JDate t) = Some (Some t)"
| "as_opt_date JNull = Some None"
| "as_opt_date JUndefined = Some None"
| "as_opt_date v = None"

definition next_link_id :: "link list \<Rightarrow> nat" where
  "next_link_id ls = Suc (fold max (map link_id ls) 0)"

text \<open>
  \<open>prisma.link.create({ data })\<close>: rejects when a field has the wrong type, when the store
  fails, or when the slug is taken (the column is unique); otherwise the new row gets
  the next id and the current time as \<open>createdAt\<close>. The API key id is passed beside the
  data object because it is a number of the authenticated request, not request data.
\<close>

definition prisma_link_create :: "env \<Rightarrow> link list \<Rightarrow> nat \<Rightarrow> jsval \<Rightarrow> string + link" where
  "prisma_link_create e ls key data =
     (case as_text (field data ''slug'') of
        None \<Rightarrow> Inl ''Invalid prisma.link.create() invocation: slug''
      | Some s \<Rightarrow>
     (case as_text (field data ''destination'') of
        None \<Rightarrow> Inl ''Invalid prisma.link.create() invocation: destination''
      | Some d \<Rightarrow>
     (case as_opt_text (field data ''title'') of
        None \<Rightarrow> Inl ''Invalid prisma.link.create() invocation: title''
      | Some t \<Rightarrow>
     (case as_opt_text (field data ''password'') of
        None \<Rightarrow> Inl ''Invalid prisma.link.create() invocation: password''
      | Some p \<Rightarrow>
     (case as_opt_date (field data ''expiresAt'') of
        None \<Rightarrow> Inl ''Invalid prisma.link.create() invocation: expiresAt''
      | Some x \<Rightarrow>
     (case as_opt_text (field data ''webhookUrl'') of
        None \<Rightarrow> Inl ''Invalid prisma.link.create() invocation: webhookUrl''
      | Some h \<Rightarrow>
     (case link_create_error e of
        Some msg \<Rightarrow> Inl msg
      | None \<Rightarrow>
          if findUnique ls s \<noteq> None
          then Inl ''Unique constraint failed on the fields: (slug)''
          else Inr \<lparr>link_id = next_link_id ls, slug = s, destination = d, title = t,
                     password = p, expiresAt = x, webhookUrl = h, createdAt = now e,
                     apiKeyId = key, meta = field data ''meta''\<rparr>)))))))"

text \<open>
  \<open>let hashedPassword = null; if (password) hashedPassword = await bcrypt.hash(password, 10)\<close>
\<close>

definition hashedPassword_of :: "env \<Rightarrow> jsval \<Rightarrow> string + jsval" where
  "hashedPassword_of e password' =
     (if truthy password' then map_sum id JStr (bcrypt_hash_js e password') else Inr JNull)"

text \<open>The \<open>data\<close> object handed to \<open>prisma.link.create\<close>, read from the request body \<open>b\<close>.\<close>

definition link_data :: "env \<Rightarrow> jsval \<Rightarrow> jsval \<Rightarrow> jsval" where
  "link_data e b hashedPassword =
     JObject
       [(''slug'', js_or (field b ''slug'') (JStr (take 8 (uuidv4 e)))),
        (''destination'', field b ''destination''),
        (''title'', field b ''title''),
        (''meta'', js_or (field b ''meta'') (JObject [])),
        (''password'', hashedPassword),
        (''expiresAt'',
           if truthy (field b ''expiresAt'') then new_Date e (field b ''expiresAt'') else JNull),
        (''webhookUrl'', field b ''webhookUrl'')]"

text \<open>
  \<open>createLink\<close>. \<open>Inl\<close> is the handler's promise rejected without a response (the call
  of \<open>bcrypt.hash\<close> stands outside the \<open>try\<close>); every failure of the insert is answered
  with 400.
\<close>

definition createLink :: "env \<Rightarrow> request \<Rightarrow> world \<Rightarrow> string + (response \<times> world)" where
  "createLink e req w =
     (let b = JObject (body req) in
        if \<not> truthy (field b ''destination'')
        then Inr (Json 400 (JObject [(''error'', JStr ''destination is required'')]), w)
        else
          case hashedPassword_of e (field b ''password'') of
            Inl err \<Rightarrow> Inl err
          | Inr hashedPassword \<Rightarrow>
              (case prisma_link_create e (links w) (apiKey_id req)
                      (link_data e b hashedPassword) of
                 Inl msg \<Rightarrow>
                   Inr (Json 400 (JObject [(''error'', JStr ''Link creation failed''),
                                           (''details'', JStr msg)]), w)
               | Inr l \<Rightarrow>
                   Inr (Json 200 (JObject
                          [(''slug'', JStr (slug l)),
                           (''shortUrl'',
                              JStr (protocol req @ ''://'' @ host req @ ''/'' @ slug l)),
                           (''id'', JNum (of_nat (link_id l)))]),
                        w\<lparr>links := links w @ [l]\<rparr>)))"

section \<open>Geo resolver (geo.service.js)\<close>

text \<open>
  Modelled from the spec: the \<open>LRUCache\<close> class of the lru-cache package is not under
  src/. The spec describes it as a bounded cache of at most 500 entries keyed by IP, each
  entry expiring one hour after insertion, with least-recently-used eviction. An entry
  is key, value and the time it was set; the list is ordered most recently used first.
  \<open>get\<close> answers undefined for a missing key and for an entry older than the TTL (which
  it removes), and otherwise moves the entry to the front; \<open>set\<close> replaces the key's
  entry and drops the least recently used one when the cache is full.
\<close>

type_synonym lru = "(string \<times> jsval \<times> int) list"

definition cache_max :: nat where
  "cache_max = 500"

definition cache_ttl :: int where
  "cache_ttl = 1000 * 60 * 60"

definition stale :: "int \<Rightarrow> string \<times> jsval \<times> int \<Rightarrow> bool" where
  "stale t en = (t - snd (snd en) > cache_ttl)"

definition cache_delete :: "string \<Rightarrow> lru \<Rightarrow> lru" where
  "cache_delete k c = filter (\<lambda>en. fst en \<noteq> k) c"

definition cache_get :: "int \<Rightarrow> string \<Rightarrow> lru \<Rightarrow> jsval \<times> lru" where
  "cache_get t k c =
     (case find (\<lambda>en. fst en = k) c of
        None \<Rightarrow> (JUndefined, c)
      | Some en \<Rightarrow>
          if stale t en then (JUndefined, cache_delete k c)
          else (fst (snd en), en # cache_delete k c))"

definition cache_set :: "int \<Rightarrow> string \<Rightarrow> jsval \<Rightarrow> lru \<Rightarrow> lru" where
  "cache_set t k v c =
     (let c' = cache_delete k c
      in (k, v, t) # (if length c' \<ge> cache_max then take (cache_max - 1) c' else c'))"

text \<open>
  The answer of \<open>fetch(url)\<close>: the promise rejects (network error), or it yields a
  response with its \<open>ok\<close> flag and what \<open>res.json()\<close> gives (\<open>Inl\<close>: the body is not
  JSON and \<open>json()\<close> rejects).
\<close>

datatype fetch_result =
    Rejected string
  | Responded bool "string + jsval"

text \<open>
  The surroundings of one call of \<open>lookup\<close>: the provider's base URL, the provider's
  answer, the time at which \<open>cache.get\<close> runs and the time at which \<open>cache.set\<close> runs
  (after the awaits).
\<close>

record geo_env =
  GEO_API :: string
  fetch :: "string \<Rightarrow> fetch_result"
  get_time :: int
  set_time :: int

text \<open>The module's state: the cache, the URLs fetched so far, and the console lines.\<close>

record geo_state =
  cache :: lru
  fetched :: "string list"
  geo_log :: "string list"

definition normalized_out :: "string \<Rightarrow> jsval \<Rightarrow> jsval" where
  "normalized_out ip data =
     JObject
       [(''ip'', JStr ip),
        (''country'', js_or (field data ''country'') JNull),
        (''region'', js_or (js_or (field data ''regionName'') (field data ''region'')) JNull),
        (''city'', js_or (field data ''city'') JNull),
        (''lat'', js_or (field data ''lat'') JNull),
        (''lon'', js_or (field data ''lon'') JNull)]"

definition lookup :: "geo_env \<Rightarrow> string option \<Rightarrow> geo_state \<Rightarrow> jsval \<times> geo_state" where
  "lookup g ip s =
     (case ip of
        None \<Rightarrow> (JNull, s)
      | Some k \<Rightarrow>
          if k = [] then (JNull, s)
          else
            let (cached, c1) = cache_get (get_time g) k (cache s) in
            if truthy cached then (cached, s\<lparr>cache := c1\<rparr>)
            else
              let url = GEO_API g @ ''/'' @ k;
                  s1 = s\<lparr>cache := c1, fetched := fetched s @ [url]\<rparr>
              in case fetch g url of
                   Rejected msg \<Rightarrow>
                     (JNull, s1\<lparr>geo_log := geo_log s1 @ [''Geo lookup failed '' @ msg]\<rparr>)
                 | Responded ok payload \<Rightarrow>
                     if \<not> ok then (JNull, s1)
                     else
                       (case payload of
                          Inl msg \<Rightarrow>
                            (JNull,
                             s1\<lparr>geo_log := geo_log s1 @ [''Geo lookup failed '' @ msg]\<rparr>)
                        | Inr data \<Rightarrow>
                            let s2 = s1\<lparr>geo_log := geo_log s1 @ [''Geo data'']\<rparr> in
                            (case js_get data ''status'' of
                               Inl msg \<Rightarrow>
                                 (JNull,
                                  s2\<lparr>geo_log := geo_log s2 @ [''Geo lookup failed '' @ msg]\<rparr>)
                             | Inr st \<Rightarrow>
                                 if \<not> strict_eq st (JStr ''success'') then (JNull, s2)
                                 else
                                   let out = normalized_out k data
                                   in (out,
                                       s2\<lparr>cache := cache_set (set_time g) k out (cache s2)\<rparr>))))"

text \<open>A run of lookups, one after the other on the module's state.\<close>

fun lookups :: "(geo_env \<times> string option) list \<Rightarrow> geo_state \<Rightarrow> geo_state" where
  "lookups [] s = s"
| "lookups ((g, ip) # ops) s = lookups ops (snd (lookup g ip s))"

text \<open>
  The invariant under which an entry survives other lookups: the entry for \<open>k\<close> is in
  the cache, the entries more recently used than it have distinct keys, and these keys
  all lie in \<open>K\<close>, a set of keys other than \<open>k\<close>.
\<close>

definition kept :: "string \<Rightarrow> jsval \<Rightarrow> int \<Rightarrow> string set \<Rightarrow> lru \<Rightarrow> bool" where
  "kept k v t K c =
     (\<exists>pre post. c = pre @ (k, v, t) # post \<and> distinct (map fst pre) \<and>
                 fst ` set pre \<subseteq> K \<and> k \<notin> K)"

text \<open>
  The ways the provider fails, as \<open>lookup\<close> sees them: \<open>fetch\<close> rejects (network error
  or timeout); the response is not \<open>ok\<close>; the body is not JSON; the body is JSON without
  a \<open>status\<close> to read (null) or with a \<open>status\<close> other than \<open>"success"\<close>.
\<close>

fun provider_failure :: "fetch_result \<Rightarrow> bool" where
  "provider_failure (Rejected msg) = True"
| "provider_failure (Responded ok (Inl msg)) = True"
| "provider_failure (Responded ok (Inr data)) =
     (\<not> ok \<or> nullish data \<or> field data ''status'' \<noteq> JStr ''success'')"

section \<open>Example data\<close>

text \<open>A clock, a link, a store holding one link and a request, used at concrete inputs.\<close>

definition demo_env :: env where
  "demo_env =
     \<lparr>now = 1700000000000, link_find_error = None, click_create_error = None,
      axios_post_error = None,
      link_create_error = None, JSON_stringify = (\<lambda>v. ''{}''),
      toISOString = (\<lambda>t. ''2023-11-14T22:13:20.000Z''), Date_parse = (\<lambda>v. None),
      uuidv4 = ''3b241101-e2bb-4255-8caf-4136c566a962'',
      bcrypt_hash = (\<lambda>s. ''$2b$10$N9qo8uLOickgx2ZMRZoMyeIjZAgcfl7p92ldGxad68LJZdL17lhWy'')\<rparr>"

definition demo_link :: link where
  "demo_link =
     \<lparr>link_id = 1, slug = ''promo1'', destination = ''https://example.com/landing'',
      title = None, password = None, expiresAt = None,
      webhookUrl = Some ''https://hooks.example.com/clicks'',
      createdAt = 1690000000000, apiKeyId = 1, meta = JObject []\<rparr>"

definition demo_world :: "link \<Rightarrow> world" where
  "demo_world l = \<lparr>links = [l], clicks = [], posts = [], console = [], effects = []\<rparr>"

definition demo_request :: "string \<Rightarrow> (string \<times> jsval) list \<Rightarrow> request" where
  "demo_request s q =
     \<lparr>params_slug = s, query = q, body = [], headers = [(''user-agent'', JStr ''curl/8.0'')],
      logger = JUndefined, req_ip = JStr ''203.0.113.7'', apiKey_id = 1,
      protocol = ''https'', host = ''sho.rt''\<rparr>"

definition demo_create :: "jsval \<Rightarrow> request" where
  "demo_create pw =
     \<lparr>params_slug = [], query = [],
      body = [(''destination'', JStr ''https://example.com/private''),
              (''slug'', JStr ''secret''), (''password'', pw)],
      headers = [], logger = JUndefined, req_ip = JStr ''203.0.113.7'', apiKey_id = 1,
      protocol = ''https'', host = ''sho.rt''\<rparr>"

definition secret_link :: "string option \<Rightarrow> link" where
  "secret_link p =
     \<lparr>link_id = 2, slug = ''secret'', destination = ''https://example.com/private'',
      title = None, password = p, expiresAt = None, webhookUrl = None,
      createdAt = 1700000000000, apiKeyId = 1, meta = JObject []\<rparr>"

definition demo_geo :: "fetch_result \<Rightarrow> int \<Rightarrow> geo_env" where
  "demo_geo r t =
     \<lparr>GEO_API = ''http://ip-api.com/json'', fetch = (\<lambda>url. r), get_time = t,
      set_time = t + 120\<rparr>"

definition empty_geo_state :: geo_state where
  "empty_geo_state = \<lparr>cache = [], fetched = [], geo_log = []\<rparr>"

definition demo_payload :: jsval where
  "demo_payload =
     JObject [(''status'', JStr ''success''), (''country'', JStr ''Nigeria''),
              (''regionName'', JStr ''Lagos''), (''region'', JStr ''LA''),
              (''city'', JStr ''Lagos''), (''lat'', JNum 6.4541), (''lon'', JNum 3.3947)]"

definition zero_payload :: jsval where
  "zero_payload =
     JObject [(''status'', JStr ''success''), (''country'', JStr ''''),
              (''regionName'', JStr ''''), (''region'', JStr ''''),
              (''city'', JStr ''''), (''lat'', JNum 0), (''lon'', JNum 0)]"

text \<open>
  Lookups of other addresses, each answered by the provider: \<open>flood n\<close> looks up \<open>n\<close>
  distinct addresses (the first entry of an \<open>X-Forwarded-For\<close> header is any text the
  client sends).
\<close>

definition flood_env :: geo_env where
  "flood_env = demo_geo (Responded True (Inr demo_payload)) 2000"

definition flood_ip :: "nat \<Rightarrow> string" where
  "flood_ip n = replicate (Suc n) CHR ''7''"

definition flood :: "nat \<Rightarrow> (geo_env \<times> string option) list" where
  "flood n = map (\<lambda>i. (flood_env, Some (flood_ip i))) [0..<n]"

definition flood_entry :: "nat \<Rightarrow> string \<times> jsval \<times> int" where
  "flood_entry i = (flood_ip i, normalized_out (flood_ip i) demo_payload, set_time flood_env)"

definition demo_ops :: "(geo_env \<times> string option) list" where
  "demo_ops =
     [(flood_env, Some ''198.51.100.4''),
      (demo_geo (Rejected ''The operation was aborted'') 2500, Some ''192.0.2.9''),
      (flood_env, None)]"

section \<open>Properties of the redirect handler\<close>

subsection \<open>Auxiliary facts\<close>

lemma strict_eq_JStr: "strict_eq a (JStr h) = (a = JStr h)"
  by (cases a) auto

lemma challenged_iff:
  "challenged req l =
     (\<exists>h. password l = Some h \<and> h \<noteq> [] \<and>
          (\<not> truthy (providedPassword req) \<or> providedPassword req \<noteq> JStr h))"
  by (cases "password l") (auto simp: challenged_def of_opt_str_def strict_eq_JStr)




lemma sendWebhook_never_rejects: "\<exists>w'. sendWebhook e u c l w = Inr w'"
  by (simp add: sendWebhook_def Let_def split: option.splits)

lemma lookup_returns:
  "(prisma_link_findUnique e ls s = Inr r) = (link_find_error e = None \<and> findUnique ls s = r)"
  by (simp add: prisma_link_findUnique_def split: option.splits)

lemma fst_redirectHandler:
  "fst (redirectHandler e req w) =
     (case prisma_link_findUnique e (links w) (params_slug req) of
        Inl msg \<Rightarrow> Inl msg
      | Inr None \<Rightarrow> Inr (Send 404 ''Not found'')
      | Inr (Some l) \<Rightarrow>
          if expired e l then Inr (Send 410 ''Gone'')
          else if challenged req l then
            Inr (Json 401 (JObject [(''error'', JStr ''Password required''),
                                    (''challenge'', JBool True)]))
          else Inr (Redirect 302 (destination l)))"
  by (simp add: redirectHandler_def Let_def split: sum.splits option.splits)

lemma resolved_run:
  assumes "prisma_link_findUnique e (links w) (params_slug req) = Inr (Some l)"
      and "\<not> expired e l" and "\<not> challenged req l"
  shows "redirectHandler e req w =
           (Inr (Redirect 302 (destination l)),
            notify e l (clickData_of e req) (record_click e l (clickData_of e req) w))"
  using assms by (simp add: redirectHandler_def Let_def)

lemma posts_record_click: "posts (record_click e l c w) = posts w"
  by (simp add: record_click_def split: option.splits)

lemma effects_record_click:
  "effects (record_click e l c w) = effects w @ [ClickCreate (link_id l) (click_create_error e = None)]"
  by (simp add: record_click_def split: option.splits)

lemma posts_notify:
  "posts (notify e l c w) =
     posts w @ (if truthy (of_opt_str (webhookUrl l))
                then [(of_opt_str (webhookUrl l), webhook_payload e c l)] else [])"
  by (simp add: notify_def sendWebhook_def Let_def split: option.splits)

lemma effects_notify:
  "effects (notify e l c w) =
     effects w @ (if truthy (of_opt_str (webhookUrl l))
                  then [AxiosPost (of_opt_str (webhookUrl l))] else [])"
  by (simp add: notify_def sendWebhook_def Let_def split: option.splits)

lemma clicks_notify: "clicks (notify e l c w) = clicks w"
  by (simp add: notify_def sendWebhook_def Let_def split: option.splits)

lemma console_notify:
  "console (notify e l c w) =
     console w @ (case axios_post_error e of
                    Some m \<Rightarrow> if truthy (of_opt_str (webhookUrl l))
                              then [''Webhook delivery failed: '' @ m] else []
                  | None \<Rightarrow> [])"
  by (simp add: notify_def sendWebhook_def Let_def split: option.splits)

lemma clicks_record_click_failed:
  "click_create_error e = Some m \<Longrightarrow>
     clicks (record_click e l c w) = clicks w \<and>
     console (record_click e l c w) = console w @ [''Failed to record click '' @ m]"
  by (simp add: record_click_def)

subsection \<open>Expiry\<close>

text \<open>
  C2. For a link returned by the lookup, the handler answers 410 exactly when \<open>expiresAt\<close>
  is set and strictly before the current time, whatever the link's password and whatever
  the request supplies; the answer is then \<open>Gone\<close> and nothing else changes. So a link
  whose \<open>expiresAt\<close> equals the current time is not expired, and a link without
  \<open>expiresAt\<close> never is.
\<close>

theorem expiry_strict:
  assumes "prisma_link_findUnique e (links w) (params_slug req) = Inr (Some l)"
  shows "(http_status (fst (redirectHandler e req w)) = Some 410)
           = (\<exists>t. expiresAt l = Some t \<and> t < now e)
       \<and> ((\<exists>t. expiresAt l = Some t \<and> t < now e)
            \<longrightarrow> redirectHandler e req w = (Inr (Send 410 ''Gone''), w))"
  using assms
  by (auto simp: redirectHandler_def expired_def Let_def split: option.splits)

text \<open>
  A password-protected link one millisecond past its expiry answers 410; the same link
  expiring exactly now does not.
\<close>

theorem expiry_strict_witness:
  "redirectHandler demo_env (demo_request ''promo1'' [])
     (demo_world (demo_link\<lparr>password := Some ''$2b$10$abc'', expiresAt := Some 1699999999999\<rparr>))
   = (Inr (Send 410 ''Gone''),
      demo_world (demo_link\<lparr>password := Some ''$2b$10$abc'', expiresAt := Some 1699999999999\<rparr>))
   \<and> http_status (fst (redirectHandler demo_env (demo_request ''promo1'' [])
        (demo_world (demo_link\<lparr>expiresAt := Some 1700000000000\<rparr>)))) \<noteq> Some 410"
proof -
  let ?l1 = "demo_link\<lparr>password := Some ''$2b$10$abc'', expiresAt := Some 1699999999999\<rparr>"
  let ?l2 = "demo_link\<lparr>expiresAt := Some 1700000000000\<rparr>"
  have f1: "prisma_link_findUnique demo_env (links (demo_world ?l1))
              (params_slug (demo_request ''promo1'' [])) = Inr (Some ?l1)"
    by (simp add: prisma_link_findUnique_def findUnique_def demo_world_def demo_request_def
          demo_link_def demo_env_def)
  have f2: "prisma_link_findUnique demo_env (links (demo_world ?l2))
              (params_slug (demo_request ''promo1'' [])) = Inr (Some ?l2)"
    by (simp add: prisma_link_findUnique_def findUnique_def demo_world_def demo_request_def
          demo_link_def demo_env_def)
  have p1: "\<exists>t. expiresAt ?l1 = Some t \<and> t < now demo_env"
    by (simp add: demo_env_def)
  have p2: "\<not> (\<exists>t. expiresAt ?l2 = Some t \<and> t < now demo_env)"
    by (simp add: demo_env_def)
  from expiry_strict [OF f1] p1 expiry_strict [OF f2] p2
  show ?thesis by blast
qed

subsection \<open>The outcomes\<close>




subsection \<open>Denials have no side effects\<close>

text \<open>
  C4. When the handler answers 404, 410 or 401 the state is returned as it was: no Click
  row is inserted, no webhook POST is issued (and nothing is logged).
\<close>

theorem denials_leave_no_trace:
  assumes "http_status (fst (redirectHandler e req w)) = Some 404
         \<or> http_status (fst (redirectHandler e req w)) = Some 410
         \<or> http_status (fst (redirectHandler e req w)) = Some 401"
  shows "snd (redirectHandler e req w) = w
       \<and> clicks (snd (redirectHandler e req w)) = clicks w
       \<and> posts (snd (redirectHandler e req w)) = posts w
       \<and> effects (snd (redirectHandler e req w)) = effects w"
  using assms
  by (auto simp: redirectHandler_def Let_def split: sum.splits option.splits if_splits)

theorem denials_leave_no_trace_witness:
  "snd (redirectHandler demo_env (demo_request ''promo1'' [(''password'', JStr ''guess'')])
        (demo_world (demo_link\<lparr>password := Some ''$2b$10$abc''\<rparr>)))
     = demo_world (demo_link\<lparr>password := Some ''$2b$10$abc''\<rparr>)
   \<and> clicks (snd (redirectHandler demo_env (demo_request ''promo1'' [(''password'', JStr ''guess'')])
        (demo_world (demo_link\<lparr>password := Some ''$2b$10$abc''\<rparr>)))) = []
   \<and> posts (snd (redirectHandler demo_env (demo_request ''promo1'' [(''password'', JStr ''guess'')])
        (demo_world (demo_link\<lparr>password := Some ''$2b$10$abc''\<rparr>)))) = []"
proof -
  let ?w = "demo_world (demo_link\<lparr>password := Some ''$2b$10$abc''\<rparr>)"
  let ?r = "demo_request ''promo1'' [(''password'', JStr ''guess'')]"
  have s: "http_status (fst (redirectHandler demo_env ?r ?w)) = Some 401"
    by (simp add: fst_redirectHandler prisma_link_findUnique_def findUnique_def demo_world_def
          demo_request_def demo_link_def demo_env_def expired_def challenged_def of_opt_str_def
          providedPassword_def js_or_def)
  have c: "clicks ?w = []" "posts ?w = []"
    by (simp_all add: demo_world_def)
  from denials_leave_no_trace [of demo_env ?r ?w] s c show ?thesis by simp
qed

subsection \<open>Analytics and notification failures\<close>

text \<open>
  C5. For a link that resolves (returned by the lookup, not expired, not challenged) the
  response is the 302 redirect to its destination whether or not the click insert is
  rejected and whether or not the webhook POST is rejected; a rejected insert and a
  rejected POST each leave a line on the console and nothing else reaches the caller.
\<close>

theorem redirect_survives_failures:
  assumes "prisma_link_findUnique e (links w) (params_slug req) = Inr (Some l)"
      and "\<not> expired e l" and "\<not> challenged req l"
  shows "fst (redirectHandler (e\<lparr>click_create_error := ce, axios_post_error := pe\<rparr>) req w)
           = Inr (Redirect 302 (destination l))
       \<and> (\<forall>m. ce = Some m \<longrightarrow>
            ''Failed to record click '' @ m
              \<in> set (console (snd (redirectHandler
                    (e\<lparr>click_create_error := ce, axios_post_error := pe\<rparr>) req w))))
       \<and> (\<forall>m. pe = Some m \<and> truthy (of_opt_str (webhookUrl l)) \<longrightarrow>
            ''Webhook delivery failed: '' @ m
              \<in> set (console (snd (redirectHandler
                    (e\<lparr>click_create_error := ce, axios_post_error := pe\<rparr>) req w))))"
proof -
  let ?e = "e\<lparr>click_create_error := ce, axios_post_error := pe\<rparr>"
  have f: "prisma_link_findUnique ?e (links w) (params_slug req) = Inr (Some l)"
    using assms(1) by (simp add: prisma_link_findUnique_def)
  have x: "\<not> expired ?e l"
    using assms(2) by (simp add: expired_def split: option.splits)
  have run: "redirectHandler ?e req w =
           (Inr (Redirect 302 (destination l)),
            notify ?e l (clickData_of ?e req) (record_click ?e l (clickData_of ?e req) w))"
    by (rule resolved_run [OF f x assms(3)])
  have a: "fst (redirectHandler ?e req w) = Inr (Redirect 302 (destination l))"
    by (simp add: run)
  have con: "console (snd (redirectHandler ?e req w)) =
      console (record_click ?e l (clickData_of ?e req) w) @
        (case pe of
           Some m \<Rightarrow> if truthy (of_opt_str (webhookUrl l))
                     then [''Webhook delivery failed: '' @ m] else []
         | None \<Rightarrow> [])"
    by (simp add: run console_notify)
  have b: "''Failed to record click '' @ m \<in> set (console (snd (redirectHandler ?e req w)))"
    if "ce = Some m" for m
    using that con clicks_record_click_failed [of ?e m l "clickData_of ?e req" w]
    by simp
  have c: "''Webhook delivery failed: '' @ m \<in> set (console (snd (redirectHandler ?e req w)))"
    if "pe = Some m \<and> truthy (of_opt_str (webhookUrl l))" for m
    using that con by simp
  from a b c show ?thesis by blast
qed

theorem redirect_survives_failures_witness:
  "fst (redirectHandler
          (demo_env\<lparr>click_create_error := Some ''database is locked'',
                    axios_post_error := Some ''connect ECONNREFUSED''\<rparr>)
          (demo_request ''promo1'' []) (demo_world demo_link))
     = Inr (Redirect 302 ''https://example.com/landing'')
   \<and> ''Failed to record click database is locked''
       \<in> set (console (snd (redirectHandler
          (demo_env\<lparr>click_create_error := Some ''database is locked'',
                    axios_post_error := Some ''connect ECONNREFUSED''\<rparr>)
          (demo_request ''promo1'' []) (demo_world demo_link))))
   \<and> ''Webhook delivery failed: connect ECONNREFUSED''
       \<in> set (console (snd (redirectHandler
          (demo_env\<lparr>click_create_error := Some ''database is locked'',
                    axios_post_error := Some ''connect ECONNREFUSED''\<rparr>)
          (demo_request ''promo1'' []) (demo_world demo_link))))"
proof -
  have f: "prisma_link_findUnique demo_env (links (demo_world demo_link))
             (params_slug (demo_request ''promo1'' [])) = Inr (Some demo_link)"
    by (simp add: prisma_link_findUnique_def findUnique_def demo_world_def demo_request_def
          demo_link_def demo_env_def)
  have x: "\<not> expired demo_env demo_link"
    by (simp add: expired_def demo_link_def)
  have c: "\<not> challenged (demo_request ''promo1'' []) demo_link"
    by (simp add: challenged_def demo_link_def of_opt_str_def)
  have d: "destination demo_link = ''https://example.com/landing''"
    "truthy (of_opt_str (webhookUrl demo_link))"
    by (simp_all add: demo_link_def of_opt_str_def)
  from redirect_survives_failures [OF f x c, where ce = "Some ''database is locked''"
      and pe = "Some ''connect ECONNREFUSED''"] d
  show ?thesis by simp
qed

text \<open>
  C6, as the code has it. For a link that resolves, the handler first attempts the click
  insert and then, whether the insert succeeded or was rejected, issues one POST to the
  link's webhook URL when that URL is set and non-empty, and none otherwise: the writes
  and requests it makes are, in this order, the insert attempt and the POST. A rejected
  insert adds no Click row and leaves its line on the console; the POSTs issued do not
  depend on the outcome of the insert.
\<close>

theorem webhook_after_insert_attempt:
  assumes "prisma_link_findUnique e (links w) (params_slug req) = Inr (Some l)"
      and "\<not> expired e l" and "\<not> challenged req l"
  shows "effects (snd (redirectHandler e req w)) =
           effects w @ ClickCreate (link_id l) (click_create_error e = None) #
             (if truthy (of_opt_str (webhookUrl l))
              then [AxiosPost (of_opt_str (webhookUrl l))] else [])
       \<and> posts (snd (redirectHandler e req w)) =
           posts w @ (if truthy (of_opt_str (webhookUrl l))
                      then [(of_opt_str (webhookUrl l), webhook_payload e (clickData_of e req) l)]
                      else [])
       \<and> (\<forall>m. click_create_error e = Some m \<longrightarrow>
             clicks (snd (redirectHandler e req w)) = clicks w \<and>
             ''Failed to record click '' @ m \<in> set (console (snd (redirectHandler e req w))))
       \<and> (\<forall>ce. posts (snd (redirectHandler (e\<lparr>click_create_error := ce\<rparr>) req w))
                  = posts (snd (redirectHandler e req w)))"
proof -
  note run = resolved_run [OF assms]
  have o: "effects (snd (redirectHandler e req w)) =
           effects w @ ClickCreate (link_id l) (click_create_error e = None) #
             (if truthy (of_opt_str (webhookUrl l))
              then [AxiosPost (of_opt_str (webhookUrl l))] else [])"
    by (simp add: run effects_notify effects_record_click)
  have a: "posts (snd (redirectHandler e req w)) =
           posts w @ (if truthy (of_opt_str (webhookUrl l))
                      then [(of_opt_str (webhookUrl l), webhook_payload e (clickData_of e req) l)]
                      else [])"
    by (simp add: run posts_notify posts_record_click)
  have c: "clicks (snd (redirectHandler e req w)) = clicks w \<and>
             ''Failed to record click '' @ m \<in> set (console (snd (redirectHandler e req w)))"
    if "click_create_error e = Some m" for m
    using clicks_record_click_failed [OF that, of l "clickData_of e req" w]
    by (simp add: run clicks_notify console_notify)
  have b: "posts (snd (redirectHandler (e\<lparr>click_create_error := ce\<rparr>) req w))
                  = posts (snd (redirectHandler e req w))" for ce
  proof -
    have f: "prisma_link_findUnique (e\<lparr>click_create_error := ce\<rparr>) (links w) (params_slug req)
               = Inr (Some l)"
      using assms(1) by (simp add: prisma_link_findUnique_def)
    have x: "\<not> expired (e\<lparr>click_create_error := ce\<rparr>) l"
      using assms(2) by (simp add: expired_def split: option.splits)
    show ?thesis
      by (simp add: resolved_run [OF f x assms(3)] a posts_notify posts_record_click
            webhook_payload_def clickData_of_def)
  qed
  from o a b c show ?thesis by blast
qed

theorem webhook_after_insert_attempt_witness:
  "effects (snd (redirectHandler (demo_env\<lparr>click_create_error := Some ''database is locked''\<rparr>)
        (demo_request ''promo1'' []) (demo_world demo_link)))
     = [ClickCreate 1 False, AxiosPost (JStr ''https://hooks.example.com/clicks'')]
   \<and> effects (snd (redirectHandler demo_env (demo_request ''promo1'' []) (demo_world demo_link)))
     = [ClickCreate 1 True, AxiosPost (JStr ''https://hooks.example.com/clicks'')]
   \<and> ''Failed to record click database is locked''
       \<in> set (console (snd (redirectHandler
            (demo_env\<lparr>click_create_error := Some ''database is locked''\<rparr>)
            (demo_request ''promo1'' []) (demo_world demo_link))))"
proof -
  let ?e = "demo_env\<lparr>click_create_error := Some ''database is locked''\<rparr>"
  have f: "prisma_link_findUnique demo_env (links (demo_world demo_link))
             (params_slug (demo_request ''promo1'' [])) = Inr (Some demo_link)"
    "prisma_link_findUnique ?e (links (demo_world demo_link))
             (params_slug (demo_request ''promo1'' [])) = Inr (Some demo_link)"
    by (simp_all add: prisma_link_findUnique_def findUnique_def demo_world_def demo_request_def
          demo_link_def demo_env_def)
  have x: "\<not> expired demo_env demo_link" "\<not> expired ?e demo_link"
    by (simp_all add: expired_def demo_link_def)
  have c: "\<not> challenged (demo_request ''promo1'' []) demo_link"
    by (simp add: challenged_def demo_link_def of_opt_str_def)
  have u: "of_opt_str (webhookUrl demo_link) = JStr ''https://hooks.example.com/clicks''"
    "effects (demo_world demo_link) = []" "link_id demo_link = 1"
    "click_create_error demo_env = None"
    by (simp_all add: demo_link_def of_opt_str_def demo_world_def demo_env_def)
  from webhook_after_insert_attempt [OF f(2) x(2) c] webhook_after_insert_attempt [OF f(1) x(1) c] u
  show ?thesis by simp
qed

text \<open>
  A failed insert does not hold the notification back: with the click insert rejected, no
  Click row is written and the POST to the webhook URL is issued all the same.
\<close>

theorem webhook_despite_failed_insert:
  "click_create_error (demo_env\<lparr>click_create_error := Some ''database is locked''\<rparr>) \<noteq> None
   \<and> clicks (snd (redirectHandler (demo_env\<lparr>click_create_error := Some ''database is locked''\<rparr>)
        (demo_request ''promo1'' []) (demo_world demo_link))) = []
   \<and> map fst (posts (snd (redirectHandler (demo_env\<lparr>click_create_error := Some ''database is locked''\<rparr>)
        (demo_request ''promo1'' []) (demo_world demo_link))))
       = [JStr ''https://hooks.example.com/clicks'']
   \<and> posts (demo_world demo_link) = []"
  by (simp add: redirectHandler_def prisma_link_findUnique_def findUnique_def demo_world_def
        demo_request_def demo_link_def
        demo_env_def expired_def challenged_def of_opt_str_def Let_def record_click_def
        notify_def sendWebhook_def)

section \<open>Properties of password protection\<close>

subsection \<open>Auxiliary facts\<close>

lemma find_append_new:
  "find P xs = None \<Longrightarrow> find P (xs @ [x]) = (if P x then Some x else None)"
  by (induction xs) (auto split: if_splits)

lemma findUnique_created:
  "findUnique ls (slug l) = None \<Longrightarrow> findUnique (ls @ [l]) (slug l) = Some l"
  by (simp add: findUnique_def find_append_new)

lemma prisma_link_create_Inr:
  assumes "prisma_link_create e ls key data = Inr l"
  shows "findUnique ls (slug l) = None \<and> as_opt_text (field data ''password'') = Some (password l)"
proof -
  from assms obtain s d t p x h where
    "as_text (field data ''slug'') = Some s"
    "as_opt_text (field data ''password'') = Some p"
    "findUnique ls s = None"
    "l = \<lparr>link_id = next_link_id ls, slug = s, destination = d, title = t,
                     password = p, expiresAt = x, webhookUrl = h, createdAt = now e,
                     apiKeyId = key, meta = field data ''meta''\<rparr>"
    unfolding prisma_link_create_def
    by (simp split: option.splits if_splits) blast
  then show ?thesis by simp
qed

lemma createLink_200:
  assumes "createLink e creq w = Inr (r, w')" and "status_of r = 200"
  shows "\<exists>l. w' = w\<lparr>links := links w @ [l]\<rparr> \<and> findUnique (links w) (slug l) = None \<and>
             password l =
               (case field (JObject (body creq)) ''password'' of
                  JStr s \<Rightarrow> if s = [] then None else Some (bcrypt_hash e s)
                | _ \<Rightarrow> None)"
proof (cases "truthy (field (JObject (body creq)) ''destination'')")
  case False
  then have "createLink e creq w =
      Inr (Json 400 (JObject [(''error'', JStr ''destination is required'')]), w)"
    by (simp add: createLink_def Let_def del: field.simps)
  with assms show ?thesis by auto
next
  case True
  let ?b = "JObject (body creq)"
  let ?pw = "field ?b ''password''"
  show ?thesis
  proof (cases "hashedPassword_of e ?pw")
    case (Inl err)
    with True have "createLink e creq w = Inl err"
      by (simp add: createLink_def Let_def del: field.simps)
    with assms show ?thesis by auto
  next
    case hp: (Inr hp)
    show ?thesis
    proof (cases "prisma_link_create e (links w) (apiKey_id creq) (link_data e ?b hp)")
      case (Inl msg)
      with True hp have "createLink e creq w =
          Inr (Json 400 (JObject [(''error'', JStr ''Link creation failed''),
                                  (''details'', JStr msg)]), w)"
        by (simp add: createLink_def Let_def del: field.simps)
      with assms show ?thesis by auto
    next
      case pc: (Inr l)
      with True hp have "snd (projr (createLink e creq w)) = w\<lparr>links := links w @ [l]\<rparr>"
        by (simp add: createLink_def Let_def del: field.simps)
      with assms have w': "w' = w\<lparr>links := links w @ [l]\<rparr>" by simp
      have dp: "field (link_data e ?b hp) ''password'' = hp"
        by (simp add: link_data_def)
      from prisma_link_create_Inr [OF pc] dp
      have u: "findUnique (links w) (slug l) = None" and p: "as_opt_text hp = Some (password l)"
        by simp_all
      have "password l = (case ?pw of JStr s \<Rightarrow> if s = [] then None else Some (bcrypt_hash e s)
                | _ \<Rightarrow> None)"
        using hp p unfolding hashedPassword_of_def
        by (cases ?pw) (auto simp: bcrypt_hash_js_def simp del: field.simps split: if_splits)
      with u w' show ?thesis by blast
    qed
  qed
qed

lemma unchallenged_without_password: "password l = None \<Longrightarrow> \<not> challenged req l"
  by (simp add: challenged_def of_opt_str_def)

lemma challenged_protected:
  assumes "password l = Some h" and "h \<noteq> []"
  shows "challenged req l = (\<not> truthy (providedPassword req) \<or> providedPassword req \<noteq> JStr h)"
  using assms by (simp add: challenged_iff)

lemma demo_createLink:
  "createLink demo_env (demo_create pw) (demo_world demo_link) =
     (case hashedPassword_of demo_env pw of
        Inl err \<Rightarrow> Inl err
      | Inr hp \<Rightarrow>
          (case as_opt_text hp of
             None \<Rightarrow> Inr (Json 400 (JObject [(''error'', JStr ''Link creation failed''),
                     (''details'', JStr ''Invalid prisma.link.create() invocation: password'')]),
                     demo_world demo_link)
           | Some p \<Rightarrow>
               Inr (Json 200 (JObject [(''slug'', JStr ''secret''),
                      (''shortUrl'', JStr ''https://sho.rt/secret''), (''id'', JNum 2)]),
                    \<lparr>links = [demo_link, secret_link p], clicks = [], posts = [],
                     console = [], effects = []\<rparr>)))"
  by (simp add: createLink_def demo_create_def demo_world_def demo_link_def demo_env_def
        prisma_link_create_def link_data_def js_or_def findUnique_def next_link_id_def
        secret_link_def
        split: sum.splits option.splits)

subsection \<open>The stored hash is compared with the supplied plaintext\<close>

text \<open>
  C1, what the code does with the correct password. \<open>createLink\<close> stores
  \<open>bcrypt.hash(password, 10)\<close>, and the redirect handler compares the supplied text with
  the stored value by \<open>!==\<close>. A bcrypt hash is never empty and never equal to the text it
  hashes, so a request that supplies exactly the password given at creation is answered
  with the 401 challenge, and no click is recorded.
\<close>

theorem correct_password_is_challenged:
  assumes "field (JObject (body creq)) ''password'' = JStr pw" and "pw \<noteq> []"
      and "bcrypt_hash e pw \<noteq> pw" and "bcrypt_hash e pw \<noteq> []"
      and "createLink e creq w = Inr (r, w')" and "status_of r = 200"
      and "params_slug req = slug (last (links w'))"
      and "link_find_error e' = None"
      and "\<not> expired e' (last (links w'))"
      and "providedPassword req = JStr pw"
  shows "password (last (links w')) = Some (bcrypt_hash e pw)
       \<and> redirectHandler e' req w' =
           (Inr (Json 401 (JObject [(''error'', JStr ''Password required''),
                                    (''challenge'', JBool True)])), w')"
proof -
  from createLink_200 [OF assms(5,6)] assms(1,2) obtain l where
    w': "w' = w\<lparr>links := links w @ [l]\<rparr>" and u: "findUnique (links w) (slug l) = None"
    and p: "password l = Some (bcrypt_hash e pw)"
    by auto
  have la: "last (links w') = l" by (simp add: w')
  have f: "prisma_link_findUnique e' (links w') (params_slug req) = Inr (Some l)"
    using findUnique_created [OF u] assms(7,8) by (simp add: w' lookup_returns)
  have ch: "challenged req l"
    using p assms(3,4,10) by (simp add: challenged_def of_opt_str_def)
  have "redirectHandler e' req w' =
           (Inr (Json 401 (JObject [(''error'', JStr ''Password required''),
                                    (''challenge'', JBool True)])), w')"
    using f ch assms(9) by (simp add: redirectHandler_def la)
  with p la show ?thesis by simp
qed

text \<open>
  At a concrete input: a link created with slug \<open>secret\<close> and password \<open>hunter2\<close>,
  then \<open>GET /secret?password=hunter2\<close>.
\<close>

theorem correct_password_is_challenged_witness:
  "password (last [demo_link,
       secret_link (Some ''$2b$10$N9qo8uLOickgx2ZMRZoMyeIjZAgcfl7p92ldGxad68LJZdL17lhWy'')])
     = Some ''$2b$10$N9qo8uLOickgx2ZMRZoMyeIjZAgcfl7p92ldGxad68LJZdL17lhWy''
   \<and> redirectHandler demo_env (demo_request ''secret'' [(''password'', JStr ''hunter2'')])
        \<lparr>links = [demo_link,
           secret_link (Some ''$2b$10$N9qo8uLOickgx2ZMRZoMyeIjZAgcfl7p92ldGxad68LJZdL17lhWy'')],
         clicks = [], posts = [], console = [], effects = []\<rparr>
     = (Inr (Json 401 (JObject [(''error'', JStr ''Password required''),
                                (''challenge'', JBool True)])),
        \<lparr>links = [demo_link,
           secret_link (Some ''$2b$10$N9qo8uLOickgx2ZMRZoMyeIjZAgcfl7p92ldGxad68LJZdL17lhWy'')],
         clicks = [], posts = [], console = [], effects = []\<rparr>)"
proof -
  let ?h = "''$2b$10$N9qo8uLOickgx2ZMRZoMyeIjZAgcfl7p92ldGxad68LJZdL17lhWy''"
  let ?w' = "\<lparr>links = [demo_link, secret_link (Some ?h)], clicks = [], posts = [],
              console = [], effects = []\<rparr>"
  let ?r = "Json 200 (JObject [(''slug'', JStr ''secret''),
                      (''shortUrl'', JStr ''https://sho.rt/secret''), (''id'', JNum 2)])"
  let ?req = "demo_request ''secret'' [(''password'', JStr ''hunter2'')]"
  have h: "bcrypt_hash demo_env ''hunter2'' = ?h"
    by (simp add: demo_env_def)
  have a1: "field (JObject (body (demo_create (JStr ''hunter2'')))) ''password'' = JStr ''hunter2''"
    by (simp add: demo_create_def)
  have a2: "''hunter2'' \<noteq> []" by simp
  have a3: "bcrypt_hash demo_env ''hunter2'' \<noteq> ''hunter2''"
    by (simp add: demo_env_def)
  have a4: "bcrypt_hash demo_env ''hunter2'' \<noteq> []"
    by (simp add: demo_env_def)
  have a5: "createLink demo_env (demo_create (JStr ''hunter2'')) (demo_world demo_link)
              = Inr (?r, ?w')"
    by (simp add: demo_createLink hashedPassword_of_def bcrypt_hash_js_def h)
  have a6: "status_of ?r = 200" by simp
  have a7: "params_slug ?req = slug (last (links ?w'))"
    by (simp add: demo_request_def secret_link_def)
  have a8: "link_find_error demo_env = None"
    by (simp add: demo_env_def)
  have a9: "\<not> expired demo_env (last (links ?w'))"
    by (simp add: expired_def secret_link_def)
  have a10: "providedPassword ?req = JStr ''hunter2''"
    by (simp add: providedPassword_def demo_request_def js_or_def)
  from correct_password_is_challenged [OF a1 a2 a3 a4 a5 a6 a7 a8 a9 a10]
  show ?thesis by (simp add: h)
qed

subsection \<open>The empty password\<close>

lemma redirectHandler_query_password:
  assumes "\<not> truthy a" and "\<not> truthy b"
  shows "redirectHandler e (req\<lparr>query := (''password'', a) # q\<rparr>) w
       = redirectHandler e (req\<lparr>query := (''password'', b) # q\<rparr>) w"
proof -
  let ?ra = "req\<lparr>query := (''password'', a) # q\<rparr>"
  let ?rb = "req\<lparr>query := (''password'', b) # q\<rparr>"
  have pp: "providedPassword ?ra = providedPassword ?rb"
    using assms by (simp add: providedPassword_def js_or_def)
  have ch: "challenged ?ra l = challenged ?rb l" for l
    unfolding challenged_def pp ..
  have cd: "clickData_of e ?ra = clickData_of e ?rb"
    by (simp add: clickData_of_def)
  have ps: "params_slug ?ra = params_slug ?rb"
    by simp
  show ?thesis
    unfolding redirectHandler_def ch cd ps ..
qed

lemma no_password_supplied:
  assumes "prisma_link_findUnique e (links w) (params_slug req) = Inr (Some l)"
      and "\<not> expired e l" and "truthy (of_opt_str (password l))"
      and "\<not> truthy (field (JObject (query req)) ''password'')"
      and "\<not> truthy (field (JObject (body req)) ''password'')"
  shows "redirectHandler e req w =
            (Inr (Json 401 (JObject [(''error'', JStr ''Password required''),
                                     (''challenge'', JBool True)])), w)"
proof -
  from assms(4,5) have "\<not> truthy (providedPassword req)"
    by (simp add: providedPassword_def js_or_def del: field.simps)
  with assms(3) have "challenged req l" by (simp add: challenged_def)
  with assms(1,2) show ?thesis
    by (simp add: redirectHandler_def)
qed

text \<open>
  C10. An empty-string password counts as no password on both sides. A link created with
  password \<open>""\<close> is stored without a password, and every later request for its slug
  (before expiry, the lookup returning) is redirected without a challenge. On a protected
  link, a request whose query password is \<open>""\<close> and whose body carries no password, and
  a request without query password whose body password is \<open>""\<close>, are answered with the
  401 challenge; and in every request a query password \<open>""\<close> gives the same result as
  a query password that is undefined.
\<close>

theorem empty_password_is_no_password:
  "(field (JObject (body creq)) ''password'' = JStr '''' \<and>
    createLink e creq w = Inr (r, w') \<and> status_of r = 200
      \<longrightarrow> (\<exists>l. links w' = links w @ [l] \<and> password l = None \<and>
             (\<forall>e' req'. params_slug req' = slug l \<and> link_find_error e' = None \<and>
                        \<not> expired e' l
                \<longrightarrow> fst (redirectHandler e' req' w') = Inr (Redirect 302 (destination l)))))
   \<and> (prisma_link_findUnique e (links w) (params_slug req) = Inr (Some l) \<and>
      \<not> expired e l \<and> truthy (of_opt_str (password l)) \<and>
      field (JObject (query req)) ''password'' = JStr '''' \<and>
      \<not> truthy (field (JObject (body req)) ''password'')
      \<longrightarrow> redirectHandler e req w =
            (Inr (Json 401 (JObject [(''error'', JStr ''Password required''),
                                     (''challenge'', JBool True)])), w))
   \<and> (prisma_link_findUnique e (links w) (params_slug req) = Inr (Some l) \<and>
      \<not> expired e l \<and> truthy (of_opt_str (password l)) \<and>
      \<not> truthy (field (JObject (query req)) ''password'') \<and>
      field (JObject (body req)) ''password'' = JStr ''''
      \<longrightarrow> redirectHandler e req w =
            (Inr (Json 401 (JObject [(''error'', JStr ''Password required''),
                                     (''challenge'', JBool True)])), w))
   \<and> redirectHandler e (req\<lparr>query := (''password'', JStr '''') # q\<rparr>) w
       = redirectHandler e (req\<lparr>query := (''password'', JUndefined) # q\<rparr>) w"
proof (intro conjI impI)
  assume a: "field (JObject (body creq)) ''password'' = JStr '''' \<and>
    createLink e creq w = Inr (r, w') \<and> status_of r = 200"
  then obtain l where
    w': "w' = w\<lparr>links := links w @ [l]\<rparr>" and u: "findUnique (links w) (slug l) = None"
    and p: "password l = None"
    using createLink_200 [of e creq w r w'] by auto
  have f: "findUnique (links w') (slug l) = Some l"
    using findUnique_created [OF u] by (simp add: w')
  have "fst (redirectHandler e' req' w') = Inr (Redirect 302 (destination l))"
    if "params_slug req' = slug l \<and> link_find_error e' = None \<and> \<not> expired e' l" for e' req'
  proof -
    from that f have "prisma_link_findUnique e' (links w') (params_slug req') = Inr (Some l)"
      by (simp add: lookup_returns)
    with that unchallenged_without_password [OF p, of req'] show ?thesis
      by (simp add: fst_redirectHandler)
  qed
  with w' p show "\<exists>l. links w' = links w @ [l] \<and> password l = None \<and>
             (\<forall>e' req'. params_slug req' = slug l \<and> link_find_error e' = None \<and>
                        \<not> expired e' l
                \<longrightarrow> fst (redirectHandler e' req' w') = Inr (Redirect 302 (destination l)))"
    by auto
next
  assume b: "prisma_link_findUnique e (links w) (params_slug req) = Inr (Some l) \<and>
      \<not> expired e l \<and> truthy (of_opt_str (password l)) \<and>
      field (JObject (query req)) ''password'' = JStr '''' \<and>
      \<not> truthy (field (JObject (body req)) ''password'')"
  then have "\<not> truthy (field (JObject (query req)) ''password'')"
    by (simp del: field.simps)
  with b show "redirectHandler e req w =
            (Inr (Json 401 (JObject [(''error'', JStr ''Password required''),
                                     (''challenge'', JBool True)])), w)"
    by (intro no_password_supplied) blast+
next
  assume b: "prisma_link_findUnique e (links w) (params_slug req) = Inr (Some l) \<and>
      \<not> expired e l \<and> truthy (of_opt_str (password l)) \<and>
      \<not> truthy (field (JObject (query req)) ''password'') \<and>
      field (JObject (body req)) ''password'' = JStr ''''"
  then have "\<not> truthy (field (JObject (body req)) ''password'')"
    by (simp del: field.simps)
  with b show "redirectHandler e req w =
            (Inr (Json 401 (JObject [(''error'', JStr ''Password required''),
                                     (''challenge'', JBool True)])), w)"
    by (intro no_password_supplied) blast+
next
  show "redirectHandler e (req\<lparr>query := (''password'', JStr '''') # q\<rparr>) w
       = redirectHandler e (req\<lparr>query := (''password'', JUndefined) # q\<rparr>) w"
    by (rule redirectHandler_query_password) simp_all
qed

theorem empty_password_is_no_password_witness:
  "createLink demo_env (demo_create (JStr '''')) (demo_world demo_link)
     = Inr (Json 200 (JObject [(''slug'', JStr ''secret''),
                      (''shortUrl'', JStr ''https://sho.rt/secret''), (''id'', JNum 2)]),
            \<lparr>links = [demo_link, secret_link None], clicks = [], posts = [], console = [],
             effects = []\<rparr>)
   \<and> fst (redirectHandler demo_env (demo_request ''secret'' [])
        \<lparr>links = [demo_link, secret_link None], clicks = [], posts = [], console = [],
         effects = []\<rparr>)
     = Inr (Redirect 302 ''https://example.com/private'')
   \<and> redirectHandler demo_env (demo_request ''promo1'' [(''password'', JStr '''')])
        (demo_world (demo_link\<lparr>password := Some ''$2b$10$abc''\<rparr>))
     = (Inr (Json 401 (JObject [(''error'', JStr ''Password required''),
                                (''challenge'', JBool True)])),
        demo_world (demo_link\<lparr>password := Some ''$2b$10$abc''\<rparr>))"
proof -
  let ?w' = "\<lparr>links = [demo_link, secret_link None], clicks = [], posts = [], console = [],
              effects = []\<rparr>"
  let ?r = "Json 200 (JObject [(''slug'', JStr ''secret''),
                      (''shortUrl'', JStr ''https://sho.rt/secret''), (''id'', JNum 2)])"
  let ?pl = "demo_link\<lparr>password := Some ''$2b$10$abc''\<rparr>"
  let ?req = "demo_request ''promo1'' [(''password'', JStr '''')]"
  have a1: "field (JObject (body (demo_create (JStr '''')))) ''password'' = JStr ''''"
    by (simp add: demo_create_def)
  have a2: "createLink demo_env (demo_create (JStr '''')) (demo_world demo_link) = Inr (?r, ?w')"
    by (simp add: demo_createLink hashedPassword_of_def)
  have a3: "status_of ?r = 200" by simp
  have b1: "prisma_link_findUnique demo_env (links (demo_world ?pl)) (params_slug ?req)
              = Inr (Some ?pl)"
    by (simp add: prisma_link_findUnique_def findUnique_def demo_world_def demo_request_def
          demo_link_def demo_env_def)
  have b2: "\<not> expired demo_env ?pl"
    by (simp add: expired_def demo_link_def)
  have b3: "truthy (of_opt_str (password ?pl))"
    by (simp add: of_opt_str_def)
  have b4: "field (JObject (query ?req)) ''password'' = JStr ''''"
    by (simp add: demo_request_def)
  have b5: "\<not> truthy (field (JObject (body ?req)) ''password'')"
    by (simp add: demo_request_def)
  note t = empty_password_is_no_password [where creq = "demo_create (JStr '''')"
      and e = demo_env and w = "demo_world demo_link" and r = ?r and w' = ?w']
  from t a1 a2 a3 obtain l where
    l: "links ?w' = links (demo_world demo_link) @ [l]" and
    go: "\<forall>e' req'. params_slug req' = slug l \<and> link_find_error e' = None \<and> \<not> expired e' l
           \<longrightarrow> fst (redirectHandler e' req' ?w') = Inr (Redirect 302 (destination l))"
    by blast
  from l have l': "l = secret_link None"
    by (simp add: demo_world_def)
  have c1: "params_slug (demo_request ''secret'' []) = slug l" "\<not> expired demo_env l"
    "destination l = ''https://example.com/private''" "link_find_error demo_env = None"
    by (simp_all add: l' secret_link_def demo_request_def expired_def demo_env_def)
  from go c1 have A: "fst (redirectHandler demo_env (demo_request ''secret'' []) ?w')
     = Inr (Redirect 302 ''https://example.com/private'')"
    by metis
  from empty_password_is_no_password [where req = ?req and l = ?pl and e = demo_env
      and w = "demo_world ?pl"] b1 b2 b3 b4 b5
  have B: "redirectHandler demo_env ?req (demo_world ?pl)
     = (Inr (Json 401 (JObject [(''error'', JStr ''Password required''),
                                (''challenge'', JBool True)])),
        demo_world ?pl)"
    by blast
  from a2 A B show ?thesis by blast
qed

section \<open>Properties of the geo resolver\<close>

subsection \<open>Auxiliary facts\<close>

lemma find_cache_delete: "find (\<lambda>en. fst en = k) (cache_delete k c) = None"
  by (simp add: cache_delete_def find_None_iff)

lemma cache_get_absent:
  "find (\<lambda>en. fst en = k) c = None \<Longrightarrow> cache_get t k c = (JUndefined, c)"
  by (simp add: cache_get_def)

lemma miss_persists:
  assumes "\<not> truthy (fst (cache_get t k c))"
  shows "\<not> truthy (fst (cache_get t2 k (snd (cache_get t k c))))"
proof (cases "find (\<lambda>en. fst en = k) c")
  case None
  then show ?thesis by (simp add: cache_get_def)
next
  case (Some en)
  show ?thesis
  proof (cases "stale t en")
    case True
    with Some have "snd (cache_get t k c) = cache_delete k c"
      by (simp add: cache_get_def)
    then show ?thesis
      by (simp add: cache_get_absent [OF find_cache_delete])
  next
    case False
    from Some have k: "fst en = k"
      by (auto simp: find_Some_iff)
    from Some False assms have v: "\<not> truthy (fst (snd en))"
      by (simp add: cache_get_def)
    from Some False have "snd (cache_get t k c) = en # cache_delete k c"
      by (simp add: cache_get_def)
    with k v show ?thesis
      by (simp add: cache_get_def)
  qed
qed

lemma lookup_hit:
  assumes "k \<noteq> []" and "truthy (fst (cache_get (get_time g) k (cache s)))"
  shows "lookup g (Some k) s =
           (fst (cache_get (get_time g) k (cache s)),
            s\<lparr>cache := snd (cache_get (get_time g) k (cache s))\<rparr>)"
  using assms by (cases "cache_get (get_time g) k (cache s)") (simp add: lookup_def)

lemma lookup_miss:
  assumes "k \<noteq> []" and "\<not> truthy (fst (cache_get (get_time g) k (cache s)))"
  shows "fetched (snd (lookup g (Some k) s)) = fetched s @ [GEO_API g @ ''/'' @ k]"
  using assms
  by (cases "cache_get (get_time g) k (cache s)")
     (simp add: lookup_def Let_def split: fetch_result.splits sum.splits)

lemma lookup_failure:
  assumes "k \<noteq> []" and "\<not> truthy (fst (cache_get (get_time g) k (cache s)))"
      and "provider_failure (fetch g (GEO_API g @ ''/'' @ k))"
  shows "fst (lookup g (Some k) s) = JNull"
    and "cache (snd (lookup g (Some k) s)) = snd (cache_get (get_time g) k (cache s))"
  using assms
  by (cases "cache_get (get_time g) k (cache s)";
      cases "fetch g (GEO_API g @ ''/'' @ k)";
      auto simp: lookup_def Let_def js_get_def strict_eq_JStr split: sum.splits)+

lemma lookup_success:
  assumes "k \<noteq> []" and "\<not> truthy (fst (cache_get (get_time g) k (cache s)))"
      and "fetch g (GEO_API g @ ''/'' @ k) = Responded True (Inr data)"
      and "\<not> nullish data" and "field data ''status'' = JStr ''success''"
  shows "fst (lookup g (Some k) s) = normalized_out k data"
    and "cache (snd (lookup g (Some k) s)) =
           cache_set (set_time g) k (normalized_out k data) (snd (cache_get (get_time g) k (cache s)))"
  using assms
  by (cases "cache_get (get_time g) k (cache s)"; simp add: lookup_def Let_def js_get_def)+

lemma cache_delete_fresh: "\<forall>en\<in>set r. fst en \<noteq> k \<Longrightarrow> cache_delete k r = r"
  by (simp add: cache_delete_def filter_id_conv)

lemma cache_get_after_set:
  assumes "t2 - t1 \<le> cache_ttl"
  shows "cache_get t2 k (cache_set t1 k v c) = (v, cache_set t1 k v c)"
proof -
  define r where "r = (if length (cache_delete k c) \<ge> cache_max
                       then take (cache_max - 1) (cache_delete k c) else cache_delete k c)"
  have "set r \<subseteq> set (cache_delete k c)"
    by (auto simp: r_def dest: in_set_takeD)
  then have "\<forall>en\<in>set r. fst en \<noteq> k"
    by (auto simp: cache_delete_def)
  then have d: "cache_delete k r = r"
    by (rule cache_delete_fresh)
  have s: "cache_set t1 k v c = (k, v, t1) # r"
    by (simp add: cache_set_def r_def Let_def)
  have "cache_delete k ((k, v, t1) # r) = r"
    using d by (simp add: cache_delete_def)
  with assms show ?thesis
    by (simp add: s cache_get_def stale_def)
qed

lemma truthy_out: "truthy (normalized_out k data)"
  by (simp add: normalized_out_def)

lemma js_or_falsy_agree:
  assumes "truthy a \<or> truthy b \<longrightarrow> b = a"
  shows "js_or b x = js_or a x"
proof (cases "truthy a \<or> truthy b")
  case True
  with assms have "b = a" by blast
  then show ?thesis by (simp only:)
next
  case False
  then show ?thesis by (simp add: js_or_def)
qed

lemma js_or_nested_agree:
  assumes "truthy a \<or> truthy a' \<longrightarrow> a' = a" and "truthy b \<or> truthy b' \<longrightarrow> b' = b"
  shows "js_or (js_or a' b') x = js_or (js_or a b) x"
proof (cases "truthy a \<or> truthy a'")
  case True
  with assms(1) have e: "a' = a" by blast
  with True have "truthy a" by blast
  then show ?thesis by (simp add: js_or_def e)
next
  case False
  then have "js_or a' b' = b'" "js_or a b = b" by (simp_all add: js_or_def)
  then show ?thesis using js_or_falsy_agree [OF assms(2)] by (simp only:)
qed

lemma out_agree:
  assumes "\<forall>f. truthy (field data f) \<or> truthy (field data' f) \<longrightarrow> field data' f = field data f"
  shows "normalized_out k data' = normalized_out k data"
proof -
  have e: "js_or (field data' f) JNull = js_or (field data f) JNull" for f
    using assms by (intro js_or_falsy_agree) blast
  have r: "js_or (js_or (field data' ''regionName'') (field data' ''region'')) JNull
         = js_or (js_or (field data ''regionName'') (field data ''region'')) JNull"
    using assms by (intro js_or_nested_agree) blast+
  show ?thesis
    by (simp only: normalized_out_def r e)
qed

lemma kept_mono: "kept k v t K c \<Longrightarrow> K \<subseteq> K' \<Longrightarrow> k \<notin> K' \<Longrightarrow> kept k v t K' c"
  unfolding kept_def by blast

lemma kept_delete:
  assumes "kept k v t K c" and "k' \<noteq> k"
  shows "kept k v t (K - {k'}) (cache_delete k' c)"
proof -
  from assms(1) obtain pre post where
    c: "c = pre @ (k, v, t) # post" and d: "distinct (map fst pre)"
    and s: "fst ` set pre \<subseteq> K" and n: "k \<notin> K"
    unfolding kept_def by blast
  let ?P = "\<lambda>en::string \<times> jsval \<times> int. fst en \<noteq> k'"
  have 1: "cache_delete k' c = filter ?P pre @ (k, v, t) # filter ?P post"
    using assms(2) by (simp add: c cache_delete_def)
  have 2: "distinct (map fst (filter ?P pre))"
    using d by (rule distinct_map_filter)
  have 3: "fst ` set (filter ?P pre) \<subseteq> K - {k'}"
    using s by auto
  from 1 2 3 n show ?thesis
    unfolding kept_def by blast
qed

lemma kept_cons:
  assumes "kept k v t K c" and "fst en \<noteq> k" and "fst en \<notin> K"
  shows "kept k v t (insert (fst en) K) (en # c)"
proof -
  from assms(1) obtain pre post where
    c: "c = pre @ (k, v, t) # post" and d: "distinct (map fst pre)"
    and s: "fst ` set pre \<subseteq> K" and n: "k \<notin> K"
    unfolding kept_def by blast
  have 1: "en # c = (en # pre) @ (k, v, t) # post"
    by (simp add: c)
  have 2: "distinct (map fst (en # pre))"
    using d s assms(3) by auto
  have 3: "fst ` set (en # pre) \<subseteq> insert (fst en) K"
    using s by auto
  have 4: "k \<notin> insert (fst en) K"
    using n assms(2) by auto
  from 1 2 3 4 show ?thesis
    unfolding kept_def by blast
qed

lemma kept_take:
  assumes "kept k v t K c" and "finite K" and "card K < n"
  shows "kept k v t K (take n c)"
proof -
  from assms(1) obtain pre post where
    c: "c = pre @ (k, v, t) # post" and d: "distinct (map fst pre)"
    and s: "fst ` set pre \<subseteq> K" and n: "k \<notin> K"
    unfolding kept_def by blast
  have "length pre = card (set (map fst pre))"
    using distinct_card [OF d] by simp
  also have "\<dots> \<le> card K"
    using s assms(2) by (simp add: card_mono)
  finally have l: "length pre < n"
    using assms(3) by simp
  then obtain m where m: "n - length pre = Suc m"
    by (cases "n - length pre") simp_all
  have "take n c = pre @ (k, v, t) # take m post"
    using l by (simp add: c m)
  with d s n show ?thesis
    unfolding kept_def by blast
qed

lemma kept_cache_get:
  assumes "kept k v t K c" and "k' \<noteq> k"
  shows "kept k v t (insert k' K) (snd (cache_get t' k' c))"
proof (cases "find (\<lambda>en. fst en = k') c")
  case None
  then have "snd (cache_get t' k' c) = c"
    by (simp add: cache_get_def)
  with assms show ?thesis
    by (auto intro: kept_mono simp: kept_def)
next
  case (Some en)
  from assms(1) have n: "k \<notin> K" unfolding kept_def by blast
  from Some have k': "fst en = k'"
    by (auto simp: find_Some_iff)
  note del = kept_delete [OF assms]
  show ?thesis
  proof (cases "stale t' en")
    case True
    with Some have "snd (cache_get t' k' c) = cache_delete k' c"
      by (simp add: cache_get_def)
    with del n assms(2) show ?thesis
      by (auto intro: kept_mono)
  next
    case False
    with Some have e: "snd (cache_get t' k' c) = en # cache_delete k' c"
      by (simp add: cache_get_def)
    have "kept k v t (insert (fst en) (K - {k'})) (en # cache_delete k' c)"
      using del by (rule kept_cons) (simp_all add: k' assms(2))
    then show ?thesis
      by (simp add: e k')
  qed
qed

lemma kept_cache_set:
  assumes "kept k v t K c" and "k' \<noteq> k" and "finite K" and "card (insert k' K) < cache_max"
  shows "kept k v t (insert k' K) (cache_set t' k' v' c)"
proof -
  let ?c' = "cache_delete k' c"
  let ?r = "if length ?c' \<ge> cache_max then take (cache_max - 1) ?c' else ?c'"
  note del = kept_delete [OF assms(1,2)]
  have "card (K - {k'}) < card (insert k' K)"
  proof (cases "k' \<in> K")
    case True
    then have "insert k' K = K" by blast
    with card_Diff1_less [OF assms(3) True] show ?thesis by simp
  next
    case False
    then have "K - {k'} = K" by blast
    with False assms(3) show ?thesis by simp
  qed
  with assms(4) have "card (K - {k'}) < cache_max - 1"
    by simp
  with del assms(3) have "kept k v t (K - {k'}) (take (cache_max - 1) ?c')"
    by (intro kept_take) simp_all
  with del have r: "kept k v t (K - {k'}) ?r"
    by simp
  have "kept k v t (insert (fst (k', v', t')) (K - {k'})) ((k', v', t') # ?r)"
    using r by (rule kept_cons) (simp_all add: assms(2))
  then show ?thesis
    by (simp add: cache_set_def Let_def)
qed

lemma lookup_cache_cases:
  "cache (snd (lookup g ip s)) = cache s
   \<or> (\<exists>k'. ip = Some k' \<and>
        (cache (snd (lookup g ip s)) = snd (cache_get (get_time g) k' (cache s))
         \<or> (\<exists>v'. cache (snd (lookup g ip s)) =
               cache_set (set_time g) k' v' (snd (cache_get (get_time g) k' (cache s))))))"
proof (cases ip)
  case None
  then show ?thesis by (simp add: lookup_def)
next
  case (Some k')
  show ?thesis
  proof (cases "k' = []")
    case True
    with Some show ?thesis by (simp add: lookup_def)
  next
    case False
    show ?thesis
    proof (cases "truthy (fst (cache_get (get_time g) k' (cache s)))")
      case True
      from lookup_hit [OF False True] Some show ?thesis by simp
    next
      case miss: False
      show ?thesis
      proof (cases "provider_failure (fetch g (GEO_API g @ ''/'' @ k'))")
        case True
        from lookup_failure(2) [OF False miss True] Some show ?thesis by simp
      next
        case ok: False
        then obtain data where
          "fetch g (GEO_API g @ ''/'' @ k') = Responded True (Inr data)"
          "\<not> nullish data" "field data ''status'' = JStr ''success''"
          by (cases "fetch g (GEO_API g @ ''/'' @ k')" rule: provider_failure.cases) auto
        from lookup_success(2) [OF False miss this] Some show ?thesis by blast
      qed
    qed
  qed
qed

lemma kept_lookup:
  assumes "kept k v t K (cache s)" and "ip \<noteq> Some k" and "finite K"
      and "card (K \<union> set_option ip) < cache_max"
  shows "kept k v t (K \<union> set_option ip) (cache (snd (lookup g ip s)))"
proof -
  from assms(1) have n: "k \<notin> K" unfolding kept_def by blast
  from lookup_cache_cases [of g ip s] show ?thesis
  proof (elim disjE exE conjE)
    assume "cache (snd (lookup g ip s)) = cache s"
    with assms(1,2) n show ?thesis
      by (cases ip) (auto intro: kept_mono)
  next
    fix k' assume ip: "ip = Some k'"
      and c: "cache (snd (lookup g ip s)) = snd (cache_get (get_time g) k' (cache s))"
    from ip assms(2) have "k' \<noteq> k" by simp
    from kept_cache_get [OF assms(1) this, of "get_time g"] show ?thesis
      unfolding c by (simp add: ip)
  next
    fix k' v' assume ip: "ip = Some k'"
      and c: "cache (snd (lookup g ip s)) =
               cache_set (set_time g) k' v' (snd (cache_get (get_time g) k' (cache s)))"
    from ip assms(2) have ne: "k' \<noteq> k" by simp
    have "kept k v t (insert k' (insert k' K))
            (cache_set (set_time g) k' v' (snd (cache_get (get_time g) k' (cache s))))"
      using kept_cache_get [OF assms(1) ne] ne assms(3,4)
      by (intro kept_cache_set) (simp_all add: ip)
    then show ?thesis
      unfolding c by (simp add: ip)
  qed
qed

lemma kept_lookups:
  assumes "kept k v t K (cache s)" and "\<forall>op\<in>set ops. snd op \<noteq> Some k" and "finite K"
      and "card (K \<union> set (List.map_filter snd ops)) < cache_max"
  shows "\<exists>K'. kept k v t K' (cache (lookups ops s))"
  using assms
proof (induction ops arbitrary: s K)
  case Nil
  then show ?case by auto
next
  case (Cons op ops)
  obtain g ip where op: "op = (g, ip)" by (cases op)
  have sub: "K \<union> set_option ip \<union> set (List.map_filter snd ops)
               = K \<union> set (List.map_filter snd (op # ops))"
    by (cases ip) (auto simp: op map_filter_simps)
  have fin: "finite (K \<union> set_option ip)"
    using Cons.prems(3) by (cases ip) simp_all
  have "card (K \<union> set_option ip) \<le> card (K \<union> set (List.map_filter snd (op # ops)))"
    using Cons.prems(3) unfolding sub [symmetric] by (intro card_mono) (use fin in auto)
  with Cons.prems(4) have c1: "card (K \<union> set_option ip) < cache_max"
    by simp
  have k1: "kept k v t (K \<union> set_option ip) (cache (snd (lookup g ip s)))"
    using Cons.prems(1) _ Cons.prems(3) c1
    by (rule kept_lookup) (use Cons.prems(2) op in auto)
  have "\<exists>K'. kept k v t K' (cache (lookups ops (snd (lookup g ip s))))"
    using k1 _ fin
    by (rule Cons.IH) (use Cons.prems(2,4) sub in auto)
  then show ?case
    by (simp add: op)
qed

lemma find_after_prefix:
  "\<forall>x\<in>set pre. \<not> P x \<Longrightarrow> P y \<Longrightarrow> find P (pre @ y # post) = Some y"
  by (induction pre) auto

lemma kept_cache_get_hit:
  assumes "kept k v t K c" and "t2 - t \<le> cache_ttl"
  shows "fst (cache_get t2 k c) = v"
proof -
  from assms(1) obtain pre post where
    c: "c = pre @ (k, v, t) # post" and s: "fst ` set pre \<subseteq> K" and n: "k \<notin> K"
    unfolding kept_def by blast
  have "find (\<lambda>en. fst en = k) c = Some (k, v, t)"
    unfolding c using s n by (intro find_after_prefix) auto
  with assms(2) show ?thesis
    by (simp add: cache_get_def stale_def)
qed

lemma lookups_append: "lookups (a @ b) s = lookups b (lookups a s)"
  by (induction a arbitrary: s) auto

lemma flood_Suc: "flood (Suc n) = flood n @ [(flood_env, Some (flood_ip n))]"
  by (simp add: flood_def)

lemma flood_ip_inj: "(flood_ip i = flood_ip j) = (i = j)"
proof
  assume "flood_ip i = flood_ip j"
  then have "length (flood_ip i) = length (flood_ip j)" by simp
  then show "i = j" by (simp add: flood_ip_def)
qed simp

lemma flood_ip_nonempty: "flood_ip i \<noteq> []"
  by (simp add: flood_ip_def)

lemma fresh_insert:
  assumes "k' \<noteq> []" and "k' \<notin> fst ` set (cache s)"
      and "fetch g (GEO_API g @ ''/'' @ k') = Responded True (Inr data)"
      and "\<not> nullish data" and "field data ''status'' = JStr ''success''"
  shows "cache (snd (lookup g (Some k') s)) =
           (k', normalized_out k' data, set_time g) #
             (if cache_max \<le> length (cache s) then take (cache_max - 1) (cache s) else cache s)"
proof -
  have n: "find (\<lambda>en. fst en = k') (cache s) = None"
    using assms(2) by (force simp: find_None_iff)
  then have g: "cache_get (get_time g) k' (cache s) = (JUndefined, cache s)"
    by (rule cache_get_absent)
  then have m: "\<not> truthy (fst (cache_get (get_time g) k' (cache s)))"
    by simp
  have d: "cache_delete k' (cache s) = cache s"
    using assms(2) by (intro cache_delete_fresh) auto
  from lookup_success(2) [OF assms(1) m assms(3-5)] show ?thesis
    by (simp add: g cache_set_def Let_def d)
qed

lemma flood_insert:
  assumes "flood_ip n \<notin> fst ` set (cache s)"
  shows "cache (snd (lookup flood_env (Some (flood_ip n)) s)) =
           flood_entry n #
             (if cache_max \<le> length (cache s) then take (cache_max - 1) (cache s) else cache s)"
  unfolding flood_entry_def
  using flood_ip_nonempty assms
  by (rule fresh_insert)
     (simp_all add: flood_env_def demo_geo_def demo_payload_def nullish_def)

lemma flood_cache:
  assumes "length (cache s) + n \<le> cache_max" and "\<forall>i. flood_ip i \<notin> fst ` set (cache s)"
  shows "cache (lookups (flood n) s) = map flood_entry (rev [0..<n]) @ cache s"
  using assms(1)
proof (induction n)
  case 0
  then show ?case by (simp add: flood_def)
next
  case (Suc n)
  let ?s = "lookups (flood n) s"
  from Suc have c: "cache ?s = map flood_entry (rev [0..<n]) @ cache s"
    by simp
  have fresh: "flood_ip n \<notin> fst ` set (cache ?s)"
    using assms(2) by (auto simp: c flood_entry_def flood_ip_inj)
  have len: "\<not> cache_max \<le> length (cache ?s)"
    using Suc.prems by (simp add: c)
  have "cache (lookups (flood (Suc n)) s) = flood_entry n # cache ?s"
    using flood_insert [OF fresh] len by (simp add: flood_Suc lookups_append)
  then show ?case
    by (simp add: c)
qed

lemma flood_evicts:
  assumes "length (cache s) = 1" and "\<forall>i. flood_ip i \<notin> fst ` set (cache s)"
  shows "cache (lookups (flood cache_max) s) = map flood_entry (rev [0..<cache_max])"
proof -
  obtain n where n: "cache_max = Suc n"
    by (simp add: cache_max_def)
  let ?s = "lookups (flood n) s"
  have c: "cache ?s = map flood_entry (rev [0..<n]) @ cache s"
    using assms by (intro flood_cache) (simp_all add: n)
  have fresh: "flood_ip n \<notin> fst ` set (cache ?s)"
    using assms(2) by (auto simp: c flood_entry_def flood_ip_inj)
  have len: "cache_max \<le> length (cache ?s)"
    using assms(1) by (simp add: c n)
  have "take (cache_max - 1) (cache ?s) = map flood_entry (rev [0..<n])"
    by (simp add: c n)
  with flood_insert [OF fresh] len
  have "cache (lookups (flood (Suc n)) s) = flood_entry n # map flood_entry (rev [0..<n])"
    by (simp add: flood_Suc lookups_append)
  then show ?thesis
    by (simp add: n)
qed

subsection \<open>Failures are not cached\<close>

text \<open>
  C7. \<open>lookup\<close> of a null or empty ip answers null and leaves the state as it was (no
  request, no cache change). When the cache has no usable entry for the ip and the
  provider fails in any of the ways of \<open>provider_failure\<close>, \<open>lookup\<close> answers null
  after exactly one request, the cache is what \<open>cache.get\<close> left (nothing is set), and a
  following \<open>lookup\<close> of the same ip, at any time and whatever the provider then answers,
  sends the request again.
\<close>

theorem failed_lookup_not_cached:
  "lookup g None s = (JNull, s) \<and> lookup g (Some '''') s = (JNull, s)
   \<and> (k \<noteq> [] \<and> \<not> truthy (fst (cache_get (get_time g) k (cache s)))
        \<and> provider_failure (fetch g (GEO_API g @ ''/'' @ k))
      \<longrightarrow> fst (lookup g (Some k) s) = JNull
          \<and> fetched (snd (lookup g (Some k) s)) = fetched s @ [GEO_API g @ ''/'' @ k]
          \<and> cache (snd (lookup g (Some k) s)) = snd (cache_get (get_time g) k (cache s))
          \<and> (\<forall>g2. fetched (snd (lookup g2 (Some k) (snd (lookup g (Some k) s))))
                   = fetched s @ [GEO_API g @ ''/'' @ k, GEO_API g2 @ ''/'' @ k]))"
proof (intro conjI impI)
  show "lookup g None s = (JNull, s)" by (simp add: lookup_def)
  show "lookup g (Some '''') s = (JNull, s)" by (simp add: lookup_def)
next
  assume a: "k \<noteq> [] \<and> \<not> truthy (fst (cache_get (get_time g) k (cache s)))
        \<and> provider_failure (fetch g (GEO_API g @ ''/'' @ k))"
  then have k: "k \<noteq> []" and m: "\<not> truthy (fst (cache_get (get_time g) k (cache s)))"
    and pf: "provider_failure (fetch g (GEO_API g @ ''/'' @ k))"
    by simp_all
  let ?s1 = "snd (lookup g (Some k) s)"
  show r: "fst (lookup g (Some k) s) = JNull"
    by (rule lookup_failure(1) [OF k m pf])
  show f: "fetched ?s1 = fetched s @ [GEO_API g @ ''/'' @ k]"
    by (rule lookup_miss [OF k m])
  show c: "cache ?s1 = snd (cache_get (get_time g) k (cache s))"
    by (rule lookup_failure(2) [OF k m pf])
  show "\<forall>g2. fetched (snd (lookup g2 (Some k) ?s1))
                   = fetched s @ [GEO_API g @ ''/'' @ k, GEO_API g2 @ ''/'' @ k]"
  proof
    fix g2 :: geo_env
    have "\<not> truthy (fst (cache_get (get_time g2) k (cache ?s1)))"
      unfolding c by (rule miss_persists [OF m])
    from lookup_miss [OF k this] f
    show "fetched (snd (lookup g2 (Some k) ?s1))
                   = fetched s @ [GEO_API g @ ''/'' @ k, GEO_API g2 @ ''/'' @ k]"
      by simp
  qed
qed

theorem failed_lookup_not_cached_witness:
  "lookup (demo_geo (Rejected ''fetch failed'') 1000) None empty_geo_state
     = (JNull, empty_geo_state)
   \<and> fst (lookup (demo_geo (Responded True (Inr (JObject [(''status'', JStr ''fail'')]))) 1000)
        (Some ''203.0.113.7'') empty_geo_state) = JNull
   \<and> cache (snd (lookup (demo_geo (Responded True (Inr (JObject [(''status'', JStr ''fail'')]))) 1000)
        (Some ''203.0.113.7'') empty_geo_state)) = []
   \<and> fetched (snd (lookup (demo_geo (Responded True (Inr demo_payload)) 2000)
        (Some ''203.0.113.7'')
        (snd (lookup (demo_geo (Responded True (Inr (JObject [(''status'', JStr ''fail'')]))) 1000)
           (Some ''203.0.113.7'') empty_geo_state))))
     = [''http://ip-api.com/json/203.0.113.7'', ''http://ip-api.com/json/203.0.113.7'']"
proof -
  let ?g = "demo_geo (Responded True (Inr (JObject [(''status'', JStr ''fail'')]))) 1000"
  let ?g2 = "demo_geo (Responded True (Inr demo_payload)) 2000"
  let ?k = "''203.0.113.7''"
  have k: "?k \<noteq> []" by simp
  have m: "\<not> truthy (fst (cache_get (get_time ?g) ?k (cache empty_geo_state)))"
    by (simp add: empty_geo_state_def cache_get_def)
  have pf: "provider_failure (fetch ?g (GEO_API ?g @ ''/'' @ ?k))"
    by (simp add: demo_geo_def)
  have c: "snd (cache_get (get_time ?g) ?k (cache empty_geo_state)) = []"
    "fetched empty_geo_state = []"
    by (simp_all add: empty_geo_state_def cache_get_def)
  have u: "GEO_API ?g @ ''/'' @ ?k = ''http://ip-api.com/json/203.0.113.7''"
    "GEO_API ?g2 @ ''/'' @ ?k = ''http://ip-api.com/json/203.0.113.7''"
    by (simp_all add: demo_geo_def)
  note t = failed_lookup_not_cached [where g = ?g and s = empty_geo_state and k = ?k]
  from t have a: "lookup ?g None empty_geo_state = (JNull, empty_geo_state)"
    by blast
  have a': "lookup (demo_geo (Rejected ''fetch failed'') 1000) None empty_geo_state
     = (JNull, empty_geo_state)"
    using failed_lookup_not_cached
      [where g = "demo_geo (Rejected ''fetch failed'') 1000" and s = empty_geo_state]
    by blast
  from t k m pf have
    b: "fst (lookup ?g (Some ?k) empty_geo_state) = JNull" and
    d: "cache (snd (lookup ?g (Some ?k) empty_geo_state))
          = snd (cache_get (get_time ?g) ?k (cache empty_geo_state))" and
    f: "\<forall>g2. fetched (snd (lookup g2 (Some ?k) (snd (lookup ?g (Some ?k) empty_geo_state))))
          = fetched empty_geo_state @ [GEO_API ?g @ ''/'' @ ?k, GEO_API g2 @ ''/'' @ ?k]"
    by blast+
  from f have f': "fetched (snd (lookup ?g2 (Some ?k) (snd (lookup ?g (Some ?k) empty_geo_state))))
          = fetched empty_geo_state @ [GEO_API ?g @ ''/'' @ ?k, GEO_API ?g2 @ ''/'' @ ?k]"
    by (rule spec)
  from a' b d f' show ?thesis
    unfolding c u by simp
qed

subsection \<open>Successes are cached\<close>

text \<open>
  C8, as the code has it. After a \<open>lookup\<close> that missed the cache and got a successful
  answer from the provider, let any lookups of other addresses follow, of fewer than 500
  distinct addresses in all (the capacity of the cache). Then a \<open>lookup\<close> of the same
  ip that starts less than one hour (the TTL) after the entry was set returns the first
  result and sends no request, whatever the provider would answer then (also when it is
  unreachable).
\<close>

theorem cached_lookup_needs_no_provider:
  assumes "k \<noteq> []"
      and "\<not> truthy (fst (cache_get (get_time g) k (cache s)))"
      and "fetch g (GEO_API g @ ''/'' @ k) = Responded True (Inr data)"
      and "\<not> nullish data" and "field data ''status'' = JStr ''success''"
      and "\<forall>op\<in>set ops. snd op \<noteq> Some k"
      and "length (remdups (List.map_filter snd ops)) < cache_max"
      and "get_time g2 - set_time g < cache_ttl"
  shows "fst (lookup g (Some k) s) = normalized_out k data
       \<and> fst (lookup g2 (Some k) (lookups ops (snd (lookup g (Some k) s))))
           = normalized_out k data
       \<and> fetched (snd (lookup g2 (Some k) (lookups ops (snd (lookup g (Some k) s)))))
           = fetched (lookups ops (snd (lookup g (Some k) s)))"
proof -
  let ?s1 = "snd (lookup g (Some k) s)"
  let ?s2 = "lookups ops ?s1"
  let ?out = "normalized_out k data"
  note suc = lookup_success [OF assms(1-5)]
  have "cache ?s1 = [] @ (k, ?out, set_time g) #
          (if cache_max \<le> length (cache_delete k (snd (cache_get (get_time g) k (cache s))))
           then take (cache_max - 1) (cache_delete k (snd (cache_get (get_time g) k (cache s))))
           else cache_delete k (snd (cache_get (get_time g) k (cache s))))"
    unfolding suc(2) by (simp add: cache_set_def Let_def)
  then have k0: "kept k ?out (set_time g) {} (cache ?s1)"
    unfolding kept_def by (intro exI conjI) simp_all
  have "card ({} \<union> set (List.map_filter snd ops)) < cache_max"
    using assms(7) by (simp add: card_set)
  with k0 assms(6) obtain K' where k2: "kept k ?out (set_time g) K' (cache ?s2)"
    using kept_lookups [of k ?out "set_time g" "{}" ?s1 ops] by auto
  have le: "get_time g2 - set_time g \<le> cache_ttl"
    using assms(8) by simp
  have hit: "fst (cache_get (get_time g2) k (cache ?s2)) = ?out"
    by (rule kept_cache_get_hit [OF k2 le])
  then have "truthy (fst (cache_get (get_time g2) k (cache ?s2)))"
    by (simp add: truthy_out)
  from lookup_hit [OF assms(1) this] hit
  have "lookup g2 (Some k) ?s2 = (?out, ?s2\<lparr>cache := snd (cache_get (get_time g2) k (cache ?s2))\<rparr>)"
    by simp
  with suc(1) show ?thesis by simp
qed

theorem cached_lookup_needs_no_provider_witness:
  "fst (lookup (demo_geo (Rejected ''connect ENETUNREACH'') 3600000) (Some ''203.0.113.7'')
       (lookups demo_ops
          (snd (lookup (demo_geo (Responded True (Inr demo_payload)) 1000)
             (Some ''203.0.113.7'') empty_geo_state))))
     = normalized_out ''203.0.113.7'' demo_payload
   \<and> fetched (snd (lookup (demo_geo (Rejected ''connect ENETUNREACH'') 3600000)
       (Some ''203.0.113.7'')
       (lookups demo_ops
          (snd (lookup (demo_geo (Responded True (Inr demo_payload)) 1000)
             (Some ''203.0.113.7'') empty_geo_state)))))
     = fetched (lookups demo_ops
          (snd (lookup (demo_geo (Responded True (Inr demo_payload)) 1000)
             (Some ''203.0.113.7'') empty_geo_state)))
   \<and> field (normalized_out ''203.0.113.7'' demo_payload) ''city'' = JStr ''Lagos''"
proof -
  let ?g = "demo_geo (Responded True (Inr demo_payload)) 1000"
  let ?g2 = "demo_geo (Rejected ''connect ENETUNREACH'') 3600000"
  let ?k = "''203.0.113.7''"
  have k: "?k \<noteq> []" by simp
  have m: "\<not> truthy (fst (cache_get (get_time ?g) ?k (cache empty_geo_state)))"
    by (simp add: empty_geo_state_def cache_get_def)
  have f: "fetch ?g (GEO_API ?g @ ''/'' @ ?k) = Responded True (Inr demo_payload)"
    by (simp add: demo_geo_def)
  have n: "\<not> nullish demo_payload"
    by (simp add: nullish_def demo_payload_def)
  have st: "field demo_payload ''status'' = JStr ''success''"
    by (simp add: demo_payload_def)
  have o: "\<forall>op\<in>set demo_ops. snd op \<noteq> Some ?k"
    by (simp add: demo_ops_def)
  have d: "length (remdups (List.map_filter snd demo_ops)) < cache_max"
    by (simp add: demo_ops_def map_filter_simps cache_max_def)
  have w: "get_time ?g2 - set_time ?g < cache_ttl"
    by (simp add: demo_geo_def cache_ttl_def)
  have c: "field (normalized_out ''203.0.113.7'' demo_payload) ''city'' = JStr ''Lagos''"
    by (simp add: normalized_out_def demo_payload_def js_or_def)
  from cached_lookup_needs_no_provider [OF k m f n st o d w] c
  show ?thesis by blast
qed

text \<open>
  Without the bound the entry can be evicted: after 500 other addresses were looked up and
  cached, a lookup of the first ip two seconds after its entry was set finds nothing in
  the cache, calls the provider again and, the provider being unreachable, answers null.
\<close>

theorem evicted_lookup_calls_provider:
  "fst (lookup (demo_geo (Responded True (Inr demo_payload)) 1000) (Some ''203.0.113.7'')
        empty_geo_state)
     = normalized_out ''203.0.113.7'' demo_payload
   \<and> get_time (demo_geo (Rejected ''connect ENETUNREACH'') 3000)
        - set_time (demo_geo (Responded True (Inr demo_payload)) 1000) < cache_ttl
   \<and> fst (lookup (demo_geo (Rejected ''connect ENETUNREACH'') 3000) (Some ''203.0.113.7'')
        (lookups (flood 500)
           (snd (lookup (demo_geo (Responded True (Inr demo_payload)) 1000)
              (Some ''203.0.113.7'') empty_geo_state))))
     = JNull
   \<and> fetched (snd (lookup (demo_geo (Rejected ''connect ENETUNREACH'') 3000)
        (Some ''203.0.113.7'')
        (lookups (flood 500)
           (snd (lookup (demo_geo (Responded True (Inr demo_payload)) 1000)
              (Some ''203.0.113.7'') empty_geo_state)))))
     = fetched (lookups (flood 500)
           (snd (lookup (demo_geo (Responded True (Inr demo_payload)) 1000)
              (Some ''203.0.113.7'') empty_geo_state)))
         @ [''http://ip-api.com/json/203.0.113.7'']"
proof -
  let ?g = "demo_geo (Responded True (Inr demo_payload)) 1000"
  let ?g2 = "demo_geo (Rejected ''connect ENETUNREACH'') 3000"
  let ?k = "''203.0.113.7''"
  let ?s1 = "snd (lookup ?g (Some ?k) empty_geo_state)"
  let ?s2 = "lookups (flood 500) ?s1"
  have k: "?k \<noteq> []" by simp
  have m: "\<not> truthy (fst (cache_get (get_time ?g) ?k (cache empty_geo_state)))"
    by (simp add: empty_geo_state_def cache_get_def)
  have f: "fetch ?g (GEO_API ?g @ ''/'' @ ?k) = Responded True (Inr demo_payload)"
    by (simp add: demo_geo_def)
  have n: "\<not> nullish demo_payload"
    by (simp add: nullish_def demo_payload_def)
  have st: "field demo_payload ''status'' = JStr ''success''"
    by (simp add: demo_payload_def)
  note suc = lookup_success [OF k m f n st]
  have c1: "cache ?s1 = [(?k, normalized_out ?k demo_payload, set_time ?g)]"
    unfolding suc(2)
    by (simp add: empty_geo_state_def cache_get_def cache_set_def cache_delete_def cache_max_def)
  have other: "flood_ip i \<noteq> ?k" for i
    by (simp add: flood_ip_def)
  have "cache (lookups (flood cache_max) ?s1) = map flood_entry (rev [0..<cache_max])"
    by (rule flood_evicts) (simp_all add: c1 other)
  moreover have "flood cache_max = flood 500"
    by (simp add: cache_max_def)
  ultimately have c2: "cache ?s2 = map flood_entry (rev [0..<cache_max])"
    by simp
  have "find (\<lambda>en. fst en = ?k) (cache ?s2) = None"
    unfolding c2 by (simp add: find_None_iff flood_entry_def other)
  then have "cache_get (get_time ?g2) ?k (cache ?s2) = (JUndefined, cache ?s2)"
    by (rule cache_get_absent)
  then have m2: "\<not> truthy (fst (cache_get (get_time ?g2) ?k (cache ?s2)))"
    by simp
  have pf: "provider_failure (fetch ?g2 (GEO_API ?g2 @ ''/'' @ ?k))"
    by (simp add: demo_geo_def)
  have u: "GEO_API ?g2 @ ''/'' @ ?k = ''http://ip-api.com/json/203.0.113.7''"
    by (simp add: demo_geo_def)
  have w: "get_time ?g2 - set_time ?g < cache_ttl"
    by (simp add: demo_geo_def cache_ttl_def)
  from suc(1) w lookup_failure(1) [OF k m2 pf] lookup_miss [OF k m2]
  show ?thesis
    unfolding u by (intro conjI)
qed

subsection \<open>Falsy fields\<close>

text \<open>
  C9. For a successful provider answer, the result returned is also the value stored in
  the cache, and in it every falsy source field has become null: country, city, lat and
  lon when the provider's field is falsy (so a latitude or longitude of exactly 0 and an
  empty string), region when both \<open>regionName\<close> and \<open>region\<close> are falsy. Each of the
  five fields of the result is null or truthy, and any other payload that differs only in
  falsy values (a field left out, for one) gives the same result.
\<close>

theorem falsy_fields_become_null:
  assumes "k \<noteq> []"
      and "\<not> truthy (fst (cache_get (get_time g) k (cache s)))"
      and "fetch g (GEO_API g @ ''/'' @ k) = Responded True (Inr data)"
      and "\<not> nullish data" and "field data ''status'' = JStr ''success''"
  shows "\<exists>out. fst (lookup g (Some k) s) = out
       \<and> fst (cache_get (set_time g) k (cache (snd (lookup g (Some k) s)))) = out
       \<and> (\<not> truthy (field data ''country'') \<longrightarrow> field out ''country'' = JNull)
       \<and> (\<not> truthy (field data ''regionName'') \<and> \<not> truthy (field data ''region'')
            \<longrightarrow> field out ''region'' = JNull)
       \<and> (\<not> truthy (field data ''city'') \<longrightarrow> field out ''city'' = JNull)
       \<and> (\<not> truthy (field data ''lat'') \<longrightarrow> field out ''lat'' = JNull)
       \<and> (\<not> truthy (field data ''lon'') \<longrightarrow> field out ''lon'' = JNull)
       \<and> (\<forall>f\<in>set [''country'', ''region'', ''city'', ''lat'', ''lon''].
             field out f = JNull \<or> truthy (field out f))
       \<and> (\<forall>data'. (\<forall>f. truthy (field data f) \<or> truthy (field data' f)
                          \<longrightarrow> field data' f = field data f)
                    \<longrightarrow> normalized_out k data' = out)"
proof -
  let ?out = "normalized_out k data"
  note suc = lookup_success [OF assms]
  have st: "fst (cache_get (set_time g) k (cache (snd (lookup g (Some k) s)))) = ?out"
    unfolding suc(2) by (simp add: cache_get_after_set cache_ttl_def)
  have f1: "\<not> truthy (field data ''country'') \<longrightarrow> field ?out ''country'' = JNull"
    by (simp add: normalized_out_def js_or_def)
  have f2: "\<not> truthy (field data ''regionName'') \<and> \<not> truthy (field data ''region'')
            \<longrightarrow> field ?out ''region'' = JNull"
    by (simp add: normalized_out_def js_or_def)
  have f3: "\<not> truthy (field data ''city'') \<longrightarrow> field ?out ''city'' = JNull"
    by (simp add: normalized_out_def js_or_def)
  have f4: "\<not> truthy (field data ''lat'') \<longrightarrow> field ?out ''lat'' = JNull"
    by (simp add: normalized_out_def js_or_def)
  have f5: "\<not> truthy (field data ''lon'') \<longrightarrow> field ?out ''lon'' = JNull"
    by (simp add: normalized_out_def js_or_def)
  have f6: "\<forall>f\<in>set [''country'', ''region'', ''city'', ''lat'', ''lon''].
             field ?out f = JNull \<or> truthy (field ?out f)"
    by (simp add: normalized_out_def js_or_def)
  have f7: "\<forall>data'. (\<forall>f. truthy (field data f) \<or> truthy (field data' f)
                          \<longrightarrow> field data' f = field data f)
                    \<longrightarrow> normalized_out k data' = ?out"
    using out_agree by blast
  show ?thesis
  proof (intro exI [of _ ?out] conjI)
    show "fst (lookup g (Some k) s) = ?out" by (rule suc(1))
  qed (rule st f1 f2 f3 f4 f5 f6 f7)+
qed

theorem falsy_fields_become_null_witness:
  "fst (lookup (demo_geo (Responded True (Inr zero_payload)) 1000)
        (Some ''203.0.113.7'') empty_geo_state)
     = JObject [(''ip'', JStr ''203.0.113.7''), (''country'', JNull), (''region'', JNull),
                (''city'', JNull), (''lat'', JNull), (''lon'', JNull)]
   \<and> normalized_out ''203.0.113.7'' (JObject [(''status'', JStr ''success'')])
     = JObject [(''ip'', JStr ''203.0.113.7''), (''country'', JNull), (''region'', JNull),
                (''city'', JNull), (''lat'', JNull), (''lon'', JNull)]"
proof -
  let ?g = "demo_geo (Responded True (Inr zero_payload)) 1000"
  let ?k = "''203.0.113.7''"
  let ?omitted = "JObject [(''status'', JStr ''success'')]"
  have k: "?k \<noteq> []" by simp
  have m: "\<not> truthy (fst (cache_get (get_time ?g) ?k (cache empty_geo_state)))"
    by (simp add: empty_geo_state_def cache_get_def)
  have f: "fetch ?g (GEO_API ?g @ ''/'' @ ?k) = Responded True (Inr zero_payload)"
    by (simp add: demo_geo_def)
  have n: "\<not> nullish zero_payload"
    by (simp add: nullish_def zero_payload_def)
  have st: "field zero_payload ''status'' = JStr ''success''"
    by (simp add: zero_payload_def)
  from falsy_fields_become_null [OF k m f n st] obtain out where
    o: "fst (lookup ?g (Some ?k) empty_geo_state) = out" and
    a: "\<forall>data'. (\<forall>f. truthy (field zero_payload f) \<or> truthy (field data' f)
                          \<longrightarrow> field data' f = field zero_payload f)
                    \<longrightarrow> normalized_out ?k data' = out"
    by blast
  have ag: "\<forall>f. truthy (field zero_payload f) \<or> truthy (field ?omitted f)
                 \<longrightarrow> field ?omitted f = field zero_payload f"
    by (simp add: zero_payload_def)
  from a ag have e: "normalized_out ?k ?omitted = out"
    by blast
  have v: "normalized_out ?k ?omitted
     = JObject [(''ip'', JStr ''203.0.113.7''), (''country'', JNull), (''region'', JNull),
                (''city'', JNull), (''lat'', JNull), (''lon'', JNull)]"
    by (simp add: normalized_out_def js_or_def)
  from o e v show ?thesis by simp
qed

end
